theory Spec2Isabelle
  imports Main "HOL-Library.Word"
begin

unbundle bit_operations_syntax

section \<open>Python values, errors and the HTTP transport\<close>

text \<open>
  Values that the client handles dynamically (parsed JSON bodies, the cached token, the
  recipients given to the mail operations) are Python values.  A dict is an association
  list with string keys, in insertion order.
\<close>

datatype pyval =
    PNone
  | PBool bool
  | PInt int
  | PStr string
  | PTuple "pyval list"
  | PList "pyval list"
  | PDict "(string \<times> pyval) list"

type_synonym pydict = "(string \<times> pyval) list"

type_synonym bytes = "8 word list"

text \<open>Python truthiness, as used by \<^verbatim>\<open>if x:\<close> and \<^verbatim>\<open>if not x:\<close>.\<close>

fun truthy :: "pyval \<Rightarrow> bool" where
  "truthy PNone = False"
| "truthy (PBool b) = b"
| "truthy (PInt i) = (i \<noteq> 0)"
| "truthy (PStr s) = (s \<noteq> [])"
| "truthy (PTuple xs) = (xs \<noteq> [])"
| "truthy (PList xs) = (xs \<noteq> [])"
| "truthy (PDict kvs) = (kvs \<noteq> [])"

text \<open>Truthiness of an \<^verbatim>\<open>Optional[str]\<close> parameter: neither \<^verbatim>\<open>None\<close> nor empty.\<close>

fun str_truthy :: "string option \<Rightarrow> bool" where
  "str_truthy None = False"
| "str_truthy (Some s) = (s \<noteq> [])"

text \<open>\<^verbatim>\<open>k in d\<close> and \<^verbatim>\<open>d.get(k, default)\<close> on a dict.\<close>

definition has_key :: "pydict \<Rightarrow> string \<Rightarrow> bool" where
  "has_key d k = (map_of d k \<noteq> None)"

definition dict_get :: "pydict \<Rightarrow> string \<Rightarrow> pyval \<Rightarrow> pyval" where
  "dict_get d k dflt = (case map_of d k of None \<Rightarrow> dflt | Some v \<Rightarrow> v)"

datatype http_method = GET | POST | PUT | PATCH

text \<open>
  Header values.  The formatted values \<^verbatim>\<open>f'Bearer {token}'\<close>,
  \<^verbatim>\<open>str(len(chunk))\<close>, \<^verbatim>\<open>f'bytes {start}-{end}/{total}'\<close> and
  \<^verbatim>\<open>f'bytes={a}-{b}'\<close> are kept as the values they are formatted from.
\<close>

datatype hval =
    HStr string
  | HBearer pyval
  | HLen nat
  | HContentRange int int int
  | HRange int int

datatype payload =
    NoBody
  | Form "(string \<times> string) list"
  | Json pyval
  | Raw bytes

record request =
  meth :: http_method
  rq_url :: string
  params :: "(string \<times> pyval) list"
  headers :: "(string \<times> hval) list"
  payload :: payload
  follow_redirects :: bool

text \<open>
  A response of the transport: its status code, its body parsed as a JSON object
  (\<open>None\<close> when \<^verbatim>\<open>response.json()\<close> cannot decode it), its text and its raw content.
\<close>

record response =
  status_code :: nat
  json_body :: "pydict option"
  body_text :: string
  body_content :: bytes

datatype reply = NetFail | Reply response

text \<open>
  The exceptions of the code.  \<open>HTTPStatusError\<close> carries the response, as
  \<^verbatim>\<open>e.response\<close> does; messages are written without accents and quotation marks.
  \<open>ValueErrorOf a v b\<close> is the \<^verbatim>\<open>ValueError\<close> whose message is the f-string
  \<^verbatim>\<open>f"{a}{v}{b}"\<close>, kept as the text around the value and the value it prints.
\<close>

datatype error =
    ValueError string
  | ValueErrorOf string pyval string
  | FileNotFoundError string
  | PermissionError string
  | Exception string
  | HTTPStatusError response
  | KeyError string
  | TypeError
  | IndexError
  | UnboundLocalError
  | JSONDecodeError
  | TransportError

text \<open>
  The client object (\<^verbatim>\<open>MsGraphBase\<close>), with the requests it has sent so far in
  \<open>calls\<close>.  The remote side is a function from the number of requests already sent and
  the request to its reply.
\<close>

record client =
  token :: pyval
  client_id :: string
  client_secret :: string
  tenant_id :: string
  base_url :: string
  token_url :: string
  is_delegated :: bool
  calls :: "request list"

type_synonym server = "nat \<Rightarrow> request \<Rightarrow> reply"

type_synonym 'a io = "client \<Rightarrow> (error + 'a) \<times> client"

definition ret :: "'a \<Rightarrow> 'a io" where
  "ret x c = (Inr x, c)"

definition raise :: "error \<Rightarrow> 'a io" where
  "raise e c = (Inl e, c)"

definition bind_io :: "'a io \<Rightarrow> ('a \<Rightarrow> 'b io) \<Rightarrow> 'b io" where
  "bind_io m f c = (case m c of (Inl e, c') \<Rightarrow> (Inl e, c') | (Inr x, c') \<Rightarrow> f x c')"

text \<open>\<^verbatim>\<open>try: ... except httpx.HTTPStatusError as e: ...\<close> with a handler that always raises.\<close>

definition except_http :: "'a io \<Rightarrow> (response \<Rightarrow> error) \<Rightarrow> 'a io" where
  "except_http m h c =
     (case m c of
        (Inl (HTTPStatusError r), c') \<Rightarrow> (Inl (h r), c')
      | other \<Rightarrow> other)"

definition send :: "server \<Rightarrow> request \<Rightarrow> response io" where
  "send srv rq c =
     (let c' = c\<lparr>calls := calls c @ [rq]\<rparr>
      in case srv (length (calls c)) rq of
           NetFail \<Rightarrow> (Inl TransportError, c')
         | Reply r \<Rightarrow> (Inr r, c'))"

text \<open>\<^verbatim>\<open>response.raise_for_status()\<close> of httpx: every status outside 2xx raises.\<close>

definition is_success :: "response \<Rightarrow> bool" where
  "is_success r = (200 \<le> status_code r \<and> status_code r \<le> 299)"

definition raise_for_status :: "response \<Rightarrow> unit io" where
  "raise_for_status r = (if is_success r then ret () else raise (HTTPStatusError r))"

definition json :: "response \<Rightarrow> pydict io" where
  "json r = (case json_body r of None \<Rightarrow> raise JSONDecodeError | Some d \<Rightarrow> ret d)"

text \<open>\<^verbatim>\<open>text.lower()\<close> on ASCII letters, and the substring test \<^verbatim>\<open>s in t\<close>.\<close>

definition lower_char :: "char \<Rightarrow> char" where
  "lower_char ch =
     (let n = (of_char ch :: nat)
      in if 65 \<le> n \<and> n \<le> 90 then char_of (n + 32) else ch)"

definition lower :: "string \<Rightarrow> string" where
  "lower s = map lower_char s"

fun is_prefix :: "string \<Rightarrow> string \<Rightarrow> bool" where
  "is_prefix [] t = True"
| "is_prefix (a # s) [] = False"
| "is_prefix (a # s) (b # t) = (a = b \<and> is_prefix s t)"

fun str_in :: "string \<Rightarrow> string \<Rightarrow> bool" where
  "str_in s [] = (s = [])"
| "str_in s (b # t) = (is_prefix s (b # t) \<or> str_in s t)"

section \<open>Credential provider: \<^verbatim>\<open>get_token\<close>\<close>

text \<open>
  \<^verbatim>\<open>SyncMsGraph.get_token\<close>, \<^verbatim>\<open>AsyncMsGraph.get_token\<close> and \<^verbatim>\<open>MsGraph.get_token\<close>
  are the same code.
\<close>

definition token_request :: "client \<Rightarrow> request" where
  "token_request c =
     \<lparr>meth = POST, rq_url = token_url c, params = [], headers = [],
      payload = Form [(''grant_type'', ''client_credentials''),
                      (''client_id'', client_id c),
                      (''client_secret'', client_secret c),
                      (''scope'', ''https://graph.microsoft.com/.default'')],
      follow_redirects = False\<rparr>"

definition get_token :: "server \<Rightarrow> pyval io" where
  "get_token srv =
     bind_io (\<lambda>c. send srv (token_request c) c) (\<lambda>response.
     bind_io (raise_for_status response) (\<lambda>_.
     bind_io (json response) (\<lambda>token_response.
       if \<not> has_key token_response ''access_token''
       then raise (Exception ''No se pudo obtener el token de acceso'')
       else (\<lambda>c. let tok = dict_get token_response ''access_token'' PNone
                  in (Inr tok, c\<lparr>token := tok\<rparr>)))))"

text \<open>The first statement of every operation: \<^verbatim>\<open>if not self.client.token: get_token()\<close>.\<close>

definition ensure_token :: "server \<Rightarrow> unit io" where
  "ensure_token srv c =
     (if \<not> truthy (token c) then bind_io (get_token srv) (\<lambda>_. ret ()) c else ret () c)"


section \<open>Mail attachments: \<^verbatim>\<open>add_attachment\<close>\<close>

text \<open>
  \<^verbatim>\<open>AsyncMails\<close> and \<^verbatim>\<open>Mails\<close> hold the same code for the functions below; one
  embedding stands for both.  Names that start with an underscore in the source
  (\<^verbatim>\<open>_create_upload_session\<close>, \<^verbatim>\<open>_upload_chunk\<close>, \<^verbatim>\<open>_add_attachment_raw\<close>,
  \<^verbatim>\<open>_process_recipients\<close>) lose it here.
\<close>

text \<open>\<^verbatim>\<open>base64.b64encode(content).decode()\<close> (RFC 4648, with padding).\<close>

definition b64_alphabet :: string where
  "b64_alphabet = ''ABCDEFGHIJKLMNOPQRSTUVWXYZabcdefghijklmnopqrstuvwxyz0123456789+/''"

definition b64_char :: "8 word \<Rightarrow> char" where
  "b64_char i = b64_alphabet ! unat (i AND 63)"

fun b64encode :: "bytes \<Rightarrow> string" where
  "b64encode [] = []"
| "b64encode [a] =
     [b64_char (drop_bit 2 a), b64_char (push_bit 4 (a AND 3)), CHR ''='', CHR ''='']"
| "b64encode [a, b] =
     [b64_char (drop_bit 2 a), b64_char (push_bit 4 (a AND 3) OR drop_bit 4 b),
      b64_char (push_bit 2 (b AND 15)), CHR ''='']"
| "b64encode (a # b # c # rest) =
     [b64_char (drop_bit 2 a), b64_char (push_bit 4 (a AND 3) OR drop_bit 4 b),
      b64_char (push_bit 2 (b AND 15) OR drop_bit 6 c), b64_char (c AND 63)]
     @ b64encode rest"

text \<open>\<^verbatim>\<open>os.path.basename\<close> on POSIX paths: what follows the last slash.\<close>

definition basename :: "string \<Rightarrow> string" where
  "basename p = rev (takeWhile (\<lambda>ch. ch \<noteq> CHR ''/'') (rev p))"

text \<open>An \<^verbatim>\<open>Optional[str]\<close> inside an f-string: \<^verbatim>\<open>None\<close> prints as \<^verbatim>\<open>None\<close>.\<close>

fun fmt :: "string option \<Rightarrow> string" where
  "fmt None = ''None''"
| "fmt (Some s) = s"

definition threshold :: nat where
  "threshold = 3 * 1024 * 1024"

definition cap :: nat where
  "cap = 150 * 1024 * 1024"

definition chunk_size :: nat where
  "chunk_size = 4 * 1024 * 1024"

definition user_base_url :: "client \<Rightarrow> string option \<Rightarrow> string" where
  "user_base_url c user_id =
     (if str_truthy user_id then base_url c @ ''/users/'' @ fmt user_id
      else base_url c @ ''/me'')"

definition upload_session_request ::
  "client \<Rightarrow> string \<Rightarrow> string \<Rightarrow> nat \<Rightarrow> string option \<Rightarrow> bool \<Rightarrow> request" where
  "upload_session_request c message_id name sz user_id is_inline =
     \<lparr>meth = POST,
      rq_url = user_base_url c user_id @ ''/messages/'' @ message_id
            @ ''/attachments/createUploadSession'',
      params = [],
      headers = [(''Authorization'', HBearer (token c))],
      payload = Json (PDict [(''AttachmentItem'',
                  PDict [(''attachmentType'', PStr ''file''),
                         (''name'', PStr name),
                         (''size'', PInt (int sz)),
                         (''isInline'', PBool is_inline)])]),
      follow_redirects = False\<rparr>"

definition create_upload_session ::
  "server \<Rightarrow> string \<Rightarrow> string \<Rightarrow> nat \<Rightarrow> string option \<Rightarrow> bool \<Rightarrow> pydict io" where
  "create_upload_session srv message_id name sz user_id is_inline =
     bind_io (ensure_token srv) (\<lambda>_.
     bind_io (\<lambda>c. send srv (upload_session_request c message_id name sz user_id is_inline) c)
       (\<lambda>response.
     bind_io (raise_for_status response) (\<lambda>_. json response)))"

definition upload_chunk_request :: "string \<Rightarrow> bytes \<Rightarrow> int \<Rightarrow> int \<Rightarrow> int \<Rightarrow> request" where
  "upload_chunk_request upload_url chunk start end' total' =
     \<lparr>meth = PUT, rq_url = upload_url, params = [],
      headers = [(''Content-Length'', HLen (length chunk)),
                 (''Content-Range'', HContentRange start end' total')],
      payload = Raw chunk, follow_redirects = False\<rparr>"

text \<open>
  \<^verbatim>\<open>_upload_chunk\<close>.  The upload URL is whatever the session's JSON held under
  \<^verbatim>\<open>uploadUrl\<close>; httpx raises \<^verbatim>\<open>TypeError\<close> on a URL that is not a string, before
  sending anything.
\<close>

definition upload_chunk :: "server \<Rightarrow> pyval \<Rightarrow> bytes \<Rightarrow> int \<Rightarrow> int \<Rightarrow> int \<Rightarrow> unit io" where
  "upload_chunk srv upload_url chunk start end' total' =
     (case upload_url of
        PStr u \<Rightarrow>
          bind_io (send srv (upload_chunk_request u chunk start end' total'))
            (\<lambda>response. raise_for_status response)
      | _ \<Rightarrow> raise TypeError)"

text \<open>
  One iteration of the loop \<^verbatim>\<open>for start in range(0, file_size, chunk_size)\<close>:
  \<^verbatim>\<open>session['uploadUrl']\<close> raises \<^verbatim>\<open>KeyError\<close> when the key is missing.
\<close>

definition upload_step :: "server \<Rightarrow> pydict \<Rightarrow> bytes \<Rightarrow> nat \<Rightarrow> nat \<Rightarrow> unit io" where
  "upload_step srv session data file_size start =
     (let chunk = take chunk_size (drop start data);
          end' = int start + int (length chunk) - 1
      in case map_of session ''uploadUrl'' of
           None \<Rightarrow> raise (KeyError ''uploadUrl'')
         | Some upload_url \<Rightarrow> upload_chunk srv upload_url chunk (int start) end' (int file_size))"

function upload_chunks :: "server \<Rightarrow> pydict \<Rightarrow> bytes \<Rightarrow> nat \<Rightarrow> nat \<Rightarrow> unit io" where
  "upload_chunks srv session data file_size start c =
     (if start < file_size then
        (case upload_step srv session data file_size start c of
           (Inl e, c') \<Rightarrow> (Inl e, c')
         | (Inr _, c') \<Rightarrow> upload_chunks srv session data file_size (start + chunk_size) c')
      else (Inr (), c))"
  by pat_completeness auto
termination
  by (relation "measure (\<lambda>(srv, session, data, file_size, start, c). file_size - start)")
     (auto simp: chunk_size_def)

declare upload_chunks.simps [simp del]

definition attachment_http_error :: "response \<Rightarrow> error" where
  "attachment_http_error r =
     (if status_code r = 400 then
        (if str_in ''insufficient privileges'' (lower (body_text r))
         then PermissionError ''No tiene los permisos necesarios. Se requiere Mail.ReadWrite''
         else HTTPStatusError r)
      else if status_code r = 401 then
        PermissionError
          ''Token no valido o expirado. Asegurese de tener los permisos Mail.ReadWrite''
      else if status_code r = 403 then
        PermissionError ''No tiene permisos para agregar adjuntos. Se requiere Mail.ReadWrite''
      else if status_code r = 404 then ValueError ''El mensaje especificado no existe''
      else if status_code r = 413 then
        ValueError ''El adjunto excede el limite permitido de 3MB''
      else HTTPStatusError r)"

definition attachment_request ::
  "client \<Rightarrow> string \<Rightarrow> string \<Rightarrow> string \<Rightarrow> string option \<Rightarrow> bool \<Rightarrow> string option \<Rightarrow> request"
  where
  "attachment_request c message_id name content_bytes user_id is_inline content_type =
     \<lparr>meth = POST,
      rq_url = user_base_url c user_id @ ''/messages/'' @ message_id @ ''/attachments'',
      params = [],
      headers = [(''Authorization'', HBearer (token c)),
                 (''Content-Type'', HStr ''application/json'')],
      payload = Json (PDict ([(''@odata.type'', PStr ''#microsoft.graph.fileAttachment''),
                              (''name'', PStr name),
                              (''contentBytes'', PStr content_bytes),
                              (''isInline'', PBool is_inline)]
                             @ (if str_truthy content_type
                                then [(''contentType'', PStr (fmt content_type))] else []))),
      follow_redirects = False\<rparr>"

definition add_attachment_raw ::
  "server \<Rightarrow> string \<Rightarrow> string \<Rightarrow> string \<Rightarrow> string option \<Rightarrow> bool \<Rightarrow> string option \<Rightarrow> pydict io"
  where
  "add_attachment_raw srv message_id name content_bytes user_id is_inline content_type =
     except_http
       (bind_io (ensure_token srv) (\<lambda>_ c.
          if \<not> str_truthy user_id \<and> \<not> is_delegated c then
            raise (ValueError (''Debe proporcionar user_id cuando usa client credentials. ''
                     @ ''Para acceder a /me use autenticacion delegada'')) c
          else if message_id = [] then raise (ValueError ''Debe proporcionar message_id'') c
          else if content_bytes \<noteq> [] \<and> length content_bytes > 3 * 1024 * 1024 then
            raise (ValueError ''El adjunto excede el limite de 3MB'') c
          else
            bind_io
              (send srv
                 (attachment_request c message_id name content_bytes user_id is_inline
                    content_type))
              (\<lambda>response. bind_io (raise_for_status response) (\<lambda>_. json response)) c))
       attachment_http_error"

text \<open>
  The content type used when none is given: \<^verbatim>\<open>mimetypes.guess_type\<close> (a parameter
  here), then \<^verbatim>\<open>application/octet-stream\<close>.
\<close>

definition resolve_content_type ::
  "(string \<Rightarrow> string option) \<Rightarrow> string option \<Rightarrow> string \<Rightarrow> string option" where
  "resolve_content_type guess_type content_type name =
     (if \<not> str_truthy content_type then
        (let guessed = guess_type name
         in if \<not> str_truthy guessed then Some ''application/octet-stream'' else guessed)
      else content_type)"

text \<open>
  \<^verbatim>\<open>add_attachment\<close>.  The file system is a map from paths to file contents, so that
  \<^verbatim>\<open>os.path.getsize\<close> is the length of what \<^verbatim>\<open>f.read()\<close> returns.  In the second
  case (\<^verbatim>\<open>file_path\<close> falsy) the two checks at the top leave either
  \<^verbatim>\<open>content\<close> and \<^verbatim>\<open>file_name\<close> both given, or \<^verbatim>\<open>file_path = ""\<close> with neither,
  where \<^verbatim>\<open>len(content)\<close> raises \<^verbatim>\<open>TypeError\<close>.  The enclosing
  \<^verbatim>\<open>try ... except Exception\<close> logs and re-raises, which changes nothing.
\<close>

definition add_attachment ::
  "server \<Rightarrow> (string \<Rightarrow> bytes option) \<Rightarrow> (string \<Rightarrow> string option) \<Rightarrow>
   string \<Rightarrow> string option \<Rightarrow> bytes option \<Rightarrow> string option \<Rightarrow> string option \<Rightarrow> bool \<Rightarrow>
   string option \<Rightarrow> pydict io" where
  "add_attachment srv fs guess_type message_id file_path content file_name user_id is_inline
     content_type =
     (if file_path = None \<and> (content = None \<or> file_name = None) then
        raise (ValueError ''Debe proporcionar file_path o la combinacion de content y file_name'')
      else if file_path \<noteq> None \<and> (content \<noteq> None \<or> file_name \<noteq> None) then
        raise (ValueError ''No puede proporcionar file_path junto con content o file_name'')
      else
        bind_io
          (if str_truthy file_path then
             (case fs (fmt file_path) of
                None \<Rightarrow> raise (FileNotFoundError (fmt file_path))
              | Some data \<Rightarrow>
                  ret (length data,
                       resolve_content_type guess_type content_type (fmt file_path),
                       basename (fmt file_path), data))
           else
             (case (content, file_name) of
                (Some data, Some name) \<Rightarrow>
                  ret (length data, resolve_content_type guess_type content_type name,
                       name, data)
              | _ \<Rightarrow> raise TypeError))
          (\<lambda>(file_size, ctype, name, data).
             if file_size \<le> 3 * 1024 * 1024 then
               add_attachment_raw srv message_id name (b64encode data) user_id is_inline ctype
             else if file_size > 150 * 1024 * 1024 then
               raise (ValueError ''El archivo excede el limite maximo de 150MB'')
             else
               bind_io (create_upload_session srv message_id name file_size user_id is_inline)
                 (\<lambda>session.
               bind_io (upload_chunks srv session data file_size 0) (\<lambda>_. ret session))))"

text \<open>
  \<^verbatim>\<open>_process_recipients\<close>: one recipient, then the loop.  Unpacking
  \<^verbatim>\<open>email, name = recipient\<close> raises \<^verbatim>\<open>ValueError\<close> unless the tuple has exactly two
  elements, and \<^verbatim>\<open>recipient[0]\<close> raises \<^verbatim>\<open>IndexError\<close> on the empty tuple.  A
  recipient that is neither a string, a tuple nor a dict raises \<^verbatim>\<open>ValueError\<close> with
  the message \<^verbatim>\<open>f"Formato de destinatario no soportado: {recipient}. Use string, tuple o dict"\<close>.
\<close>

definition email_address :: "pyval \<Rightarrow> pyval \<Rightarrow> pyval" where
  "email_address address name =
     PDict [(''emailAddress'', PDict [(''address'', address), (''name'', name)])]"

fun process_recipient :: "pyval \<Rightarrow> error + pyval" where
  "process_recipient (PStr s) = Inr (email_address (PStr s) (PStr ''''))"
| "process_recipient (PTuple xs) =
     (if length xs > 1 then
        (case xs of
           [email, name] \<Rightarrow> Inr (email_address email name)
         | _ \<Rightarrow> Inl (ValueError ''too many values to unpack (expected 2)''))
      else
        (case xs of
           [] \<Rightarrow> Inl IndexError
         | email # _ \<Rightarrow> Inr (email_address email (PStr ''''))))"
| "process_recipient (PDict d) =
     (if has_key d ''emailAddress'' then Inr (PDict d)
      else Inr (email_address (dict_get d ''address'' PNone) (dict_get d ''name'' (PStr ''''))))"
| "process_recipient other =
     Inl (ValueErrorOf ''Formato de destinatario no soportado: '' other
            ''. Use string, tuple o dict'')"

fun process_recipients_loop :: "pyval list \<Rightarrow> pyval list \<Rightarrow> error + pyval list" where
  "process_recipients_loop processed [] = Inr processed"
| "process_recipients_loop processed (recipient # rest) =
     (case process_recipient recipient of
        Inl e \<Rightarrow> Inl e
      | Inr p \<Rightarrow> process_recipients_loop (processed @ [p]) rest)"

definition process_recipients :: "pyval list \<Rightarrow> error + pyval list" where
  "process_recipients recipients = process_recipients_loop [] recipients"

section \<open>Drive operations\<close>

text \<open>
  \<^verbatim>\<open>AsyncDrives\<close> and \<^verbatim>\<open>Drives\<close> hold the same code for every operation below
  (\<^verbatim>\<open>create_folder\<close> exists in \<^verbatim>\<open>AsyncDrives\<close> only).  \<^verbatim>\<open>list_followed\<close> takes a
  single identifier and is left out.  Query parameters are Python values:
  \<^verbatim>\<open>str(top)\<close> is kept as the integer it is formatted from.
\<close>

text \<open>\<^verbatim>\<open>[i for i in [drive_id, user_id, group_id, site_id] if i is not None]\<close>.\<close>

definition given_ids :: "string option list \<Rightarrow> string option list" where
  "given_ids ids = filter (\<lambda>i. i \<noteq> None) ids"

text \<open>
  The chain \<^verbatim>\<open>if drive_id: ... elif user_id: ... elif group_id: ... elif site_id: ...
  else: .../me/drive\<close> that most operations repeat.
\<close>

definition drive_base_url ::
  "client \<Rightarrow> string option \<Rightarrow> string option \<Rightarrow> string option \<Rightarrow> string option \<Rightarrow> string"
  where
  "drive_base_url c drive_id user_id group_id site_id =
     (if str_truthy drive_id then base_url c @ ''/drives/'' @ fmt drive_id
      else if str_truthy user_id then base_url c @ ''/users/'' @ fmt user_id @ ''/drive''
      else if str_truthy group_id then base_url c @ ''/groups/'' @ fmt group_id @ ''/drive''
      else if str_truthy site_id then base_url c @ ''/sites/'' @ fmt site_id @ ''/drive''
      else base_url c @ ''/me/drive'')"

text \<open>\<^verbatim>\<open>s.strip('/')\<close>.\<close>

definition strip_slash :: "string \<Rightarrow> string" where
  "strip_slash s =
     rev (dropWhile (\<lambda>ch. ch = CHR ''/'') (rev (dropWhile (\<lambda>ch. ch = CHR ''/'') s)))"

definition opt_param :: "string \<Rightarrow> string option \<Rightarrow> (string \<times> pyval) list" where
  "opt_param k v = (if str_truthy v then [(k, PStr (fmt v))] else [])"

definition top_param :: "int option \<Rightarrow> (string \<times> pyval) list" where
  "top_param top' = (case top' of None \<Rightarrow> [] | Some n \<Rightarrow> if n \<noteq> 0 then [(''$top'', PInt n)] else [])"

definition auth_header :: "client \<Rightarrow> (string \<times> hval)" where
  "auth_header c = (''Authorization'', HBearer (token c))"

definition mk_request ::
  "http_method \<Rightarrow> string \<Rightarrow> (string \<times> pyval) list \<Rightarrow> (string \<times> hval) list \<Rightarrow> payload \<Rightarrow> bool \<Rightarrow>
   request" where
  "mk_request m u ps hs b fr =
     \<lparr>meth = m, rq_url = u, params = ps, headers = hs, payload = b,
      follow_redirects = fr\<rparr>"

definition one_id_msg :: string where
  "one_id_msg = ''Solo puede proporcionar uno de: drive_id, user_id, group_id, site_id''"

definition both_item_msg :: string where
  "both_item_msg = ''No puede proporcionar item_id e item_path simultaneamente''"

definition list_drives ::
  "server \<Rightarrow> string option \<Rightarrow> string option \<Rightarrow> string option \<Rightarrow> string option \<Rightarrow> pydict io"
  where
  "list_drives srv user_id resource_id resource_type select =
     bind_io (ensure_token srv) (\<lambda>_ c.
       if str_truthy resource_id \<and> str_truthy resource_type
          \<and> fmt resource_type \<notin> set [''users'', ''groups'', ''sites'']
       then raise (ValueError ''resource_type debe ser users, groups o sites'') c
       else
         (let u = (if str_truthy resource_id \<and> str_truthy resource_type
                   then base_url c @ ''/'' @ fmt resource_type @ ''/'' @ fmt resource_id
                        @ ''/drives''
                   else base_url c @ ''/users/'' @ fmt user_id @ ''/drives'')
          in bind_io
               (send srv (mk_request GET u (opt_param ''$select'' select) [auth_header c]
                            NoBody False))
               (\<lambda>response. bind_io (raise_for_status response) (\<lambda>_. json response)) c))"

text \<open>
  \<^verbatim>\<open>get_drive\<close>: its URL chain has no \<^verbatim>\<open>else\<close>, and its four URLs are those of
  \<open>drive_base_url\<close>.  When the one identifier given is the empty string, no branch
  assigns \<^verbatim>\<open>url\<close> and its use raises \<^verbatim>\<open>UnboundLocalError\<close>.
\<close>

definition get_drive ::
  "server \<Rightarrow> string option \<Rightarrow> string option \<Rightarrow> string option \<Rightarrow> string option \<Rightarrow>
   string option \<Rightarrow> pydict io" where
  "get_drive srv drive_id user_id group_id site_id select =
     bind_io (ensure_token srv) (\<lambda>_ c.
       let ids = given_ids [drive_id, user_id, group_id, site_id] in
       if length ids = 0 then
         raise (ValueError ''Debe proporcionar drive_id, user_id, group_id o site_id'') c
       else if length ids > 1 then
         raise (ValueError ''Solo puede proporcionar un tipo de ID'') c
       else if \<not> (str_truthy drive_id \<or> str_truthy user_id \<or> str_truthy group_id
                   \<or> str_truthy site_id)
       then raise UnboundLocalError c
       else
         (let u = drive_base_url c drive_id user_id group_id site_id
          in bind_io
               (send srv (mk_request GET u (opt_param ''$select'' select) [auth_header c]
                            NoBody False))
               (\<lambda>response. bind_io (raise_for_status response) (\<lambda>_. json response)) c))"

text \<open>
  \<^verbatim>\<open>get_item\<close>.  With \<^verbatim>\<open>site_id\<close> and \<^verbatim>\<open>list_id\<close> the source assigns \<^verbatim>\<open>url\<close>,
  clears \<^verbatim>\<open>item_path\<close> and leaves \<^verbatim>\<open>base_url\<close> unassigned; the final
  \<^verbatim>\<open>if/elif/else\<close> then reaches \<^verbatim>\<open>f"{base_url}/root"\<close>, which raises
  \<^verbatim>\<open>UnboundLocalError\<close>.  A 304 answer returns \<^verbatim>\<open>None\<close>.
\<close>

definition get_item_request ::
  "client \<Rightarrow> string option \<Rightarrow> string option \<Rightarrow> string option \<Rightarrow> string option \<Rightarrow>
   string option \<Rightarrow> string option \<Rightarrow> string option \<Rightarrow> string option \<Rightarrow> string option \<Rightarrow>
   bool \<Rightarrow> string option \<Rightarrow> request" where
  "get_item_request c item_id item_path drive_id user_id group_id site_id list_id select expand
     include_deleted etag =
     (let base = drive_base_url c drive_id user_id group_id site_id;
          u = (if item_path \<noteq> None then base @ ''/root:/'' @ strip_slash (fmt item_path)
               else if item_id \<noteq> None \<and> \<not> str_truthy list_id
               then base @ ''/items/'' @ fmt item_id
               else base @ ''/root'');
          ps = opt_param ''$select'' select @ opt_param ''$expand'' expand
               @ (if include_deleted \<and> str_truthy item_id
                  then [(''includeDeletedItems'', PStr ''true'')] else []);
          hs = [auth_header c]
               @ (if str_truthy etag then [(''if-none-match'', HStr (fmt etag))] else [])
      in mk_request GET u ps hs NoBody False)"

definition get_item ::
  "server \<Rightarrow> string option \<Rightarrow> string option \<Rightarrow> string option \<Rightarrow> string option \<Rightarrow>
   string option \<Rightarrow> string option \<Rightarrow> string option \<Rightarrow> string option \<Rightarrow> string option \<Rightarrow>
   bool \<Rightarrow> string option \<Rightarrow> pydict option io" where
  "get_item srv item_id item_path drive_id user_id group_id site_id list_id select expand
     include_deleted etag =
     bind_io (ensure_token srv) (\<lambda>_ c.
       if length (given_ids [drive_id, user_id, group_id, site_id]) > 1 then
         raise (ValueError one_id_msg) c
       else if item_id \<noteq> None \<and> item_path \<noteq> None then
         raise (ValueError both_item_msg) c
       else if \<not> str_truthy drive_id \<and> \<not> str_truthy user_id \<and> \<not> str_truthy group_id
               \<and> str_truthy site_id \<and> str_truthy list_id
       then raise UnboundLocalError c
       else
         bind_io
           (send srv (get_item_request c item_id item_path drive_id user_id group_id site_id
                        list_id select expand include_deleted etag))
           (\<lambda>response.
              if status_code response = 304 then ret None
              else bind_io (raise_for_status response) (\<lambda>_.
                   bind_io (json response) (\<lambda>d. ret (Some d)))) c)"

definition list_items ::
  "server \<Rightarrow> string option \<Rightarrow> string option \<Rightarrow> string option \<Rightarrow> string option \<Rightarrow>
   string option \<Rightarrow> string option \<Rightarrow> string option \<Rightarrow> string option \<Rightarrow> string option \<Rightarrow>
   int option \<Rightarrow> pydict io" where
  "list_items srv item_id item_path drive_id user_id group_id site_id select expand orderby
     top' =
     bind_io (ensure_token srv) (\<lambda>_ c.
       if length (given_ids [drive_id, user_id, group_id, site_id]) > 1 then
         raise (ValueError one_id_msg) c
       else if item_id \<noteq> None \<and> item_path \<noteq> None then
         raise (ValueError both_item_msg) c
       else
         (let base = drive_base_url c drive_id user_id group_id site_id;
              u = (if item_path \<noteq> None
                   then base @ ''/root:/'' @ strip_slash (fmt item_path) @ '':/children''
                   else if item_id \<noteq> None then
                     (if item_id = Some ''root'' then base @ ''/root/children''
                      else base @ ''/items/'' @ fmt item_id @ ''/children'')
                   else base @ ''/root/children'');
              ps = opt_param ''$select'' select @ opt_param ''$expand'' expand
                   @ opt_param ''$orderby'' orderby @ top_param top'
          in bind_io (send srv (mk_request GET u ps [auth_header c] NoBody False))
               (\<lambda>response. bind_io (raise_for_status response) (\<lambda>_. json response)) c))"

definition list_changes ::
  "server \<Rightarrow> string option \<Rightarrow> string option \<Rightarrow> string option \<Rightarrow> string option \<Rightarrow>
   string option \<Rightarrow> string option \<Rightarrow> string option \<Rightarrow> int option \<Rightarrow> bool \<Rightarrow> pydict io" where
  "list_changes srv delta_token drive_id user_id group_id site_id select expand top'
     show_sharing_changes =
     bind_io (ensure_token srv) (\<lambda>_ c.
       if length (given_ids [drive_id, user_id, group_id, site_id]) > 1 then
         raise (ValueError one_id_msg) c
       else
         (let base = drive_base_url c drive_id user_id group_id site_id;
              u = base @ ''/root/delta''
                  @ (if str_truthy delta_token then
                       (if delta_token \<noteq> Some ''latest''
                        then ''(token=''  @ [CHR 0x27] @ fmt delta_token @ [CHR 0x27] @ '')''
                        else ''?token=latest'')
                     else []);
              ps = opt_param ''$select'' select @ opt_param ''$expand'' expand @ top_param top';
              hs = [auth_header c,
                    (''Prefer'',
                     HStr (if show_sharing_changes
                           then ''deltashowremovedasdeleted, deltatraversepermissiongaps, ''
                                @ ''deltashowsharingchanges''
                           else ''hierarchicalsharing''))]
          in bind_io (send srv (mk_request GET u ps hs NoBody False))
               (\<lambda>response. bind_io (raise_for_status response) (\<lambda>_. json response)) c))"

text \<open>
  The handlers \<^verbatim>\<open>except httpx.HTTPStatusError\<close> of the writing operations: 401 and 403
  become \<^verbatim>\<open>PermissionError\<close>, as does a 400 whose text mentions insufficient
  privileges; \<open>scopes\<close> and \<open>what\<close> are the parts of the messages that vary,
  \<open>extra\<close> holds what an operation adds (413, 404); everything else is re-raised.
\<close>

definition drive_http_error ::
  "string \<Rightarrow> string \<Rightarrow> (nat \<times> error) list \<Rightarrow> response \<Rightarrow> error" where
  "drive_http_error scopes what extra r =
     (if status_code r = 400 then
        (if str_in ''insufficient privileges'' (lower (body_text r))
         then PermissionError (''No tiene los permisos necesarios. Se requiere '' @ scopes)
         else HTTPStatusError r)
      else if status_code r = 401 then
        PermissionError
          (''Token no valido o expirado. Asegurese de tener los permisos '' @ scopes)
      else if status_code r = 403 then
        PermissionError (''No tiene permisos para '' @ what @ ''. Se requiere '' @ scopes)
      else (case map_of extra (status_code r) of
              Some e \<Rightarrow> e
            | None \<Rightarrow> HTTPStatusError r))"

definition create_folder ::
  "server \<Rightarrow> string \<Rightarrow> string option \<Rightarrow> string option \<Rightarrow> string option \<Rightarrow> string option \<Rightarrow>
   string option \<Rightarrow> string \<Rightarrow> pydict io" where
  "create_folder srv name parent_id drive_id user_id group_id site_id conflict_behavior =
     except_http
       (bind_io (ensure_token srv) (\<lambda>_ c.
          let ids = given_ids [drive_id, user_id, group_id, site_id] in
          if length ids = 0 then
            raise (ValueError ''Debe proporcionar uno de: drive_id, user_id, group_id, site_id'')
              c
          else if length ids > 1 then raise (ValueError one_id_msg) c
          else if conflict_behavior \<notin> set [''rename'', ''replace'', ''fail''] then
            raise (ValueError ''conflict_behavior debe ser rename, replace o fail'') c
          else if \<not> (str_truthy drive_id \<or> str_truthy user_id \<or> str_truthy group_id
                      \<or> str_truthy site_id)
          then
            raise (ValueError ''Debe proporcionar uno de: drive_id, user_id, group_id, site_id'')
              c
          else
            (let base = drive_base_url c drive_id user_id group_id site_id;
                 u = (if str_truthy parent_id
                      then base @ ''/items/'' @ fmt parent_id @ ''/children''
                      else base @ ''/root/children'');
                 body = PDict [(''name'', PStr name), (''folder'', PDict []),
                               (''@microsoft.graph.conflictBehavior'', PStr conflict_behavior)];
                 hs = [auth_header c, (''Content-Type'', HStr ''application/json'')]
             in bind_io (send srv (mk_request POST u [] hs (Json body) False))
                  (\<lambda>response. bind_io (raise_for_status response) (\<lambda>_. json response)) c)))
       (drive_http_error ''Files.ReadWrite o Files.ReadWrite.All''
          ''crear carpetas en este drive'' [])"

text \<open>\<^verbatim>\<open>update_item\<close>: a 412 answer returns \<^verbatim>\<open>None\<close>.\<close>

definition update_item_request ::
  "client \<Rightarrow> string \<Rightarrow> pydict \<Rightarrow> string option \<Rightarrow> string option \<Rightarrow> string option \<Rightarrow>
   string option \<Rightarrow> string option \<Rightarrow> request" where
  "update_item_request c item_id properties drive_id user_id group_id site_id etag =
     (let base = drive_base_url c drive_id user_id group_id site_id;
          u = base @ ''/items/'' @ item_id;
          hs = [auth_header c, (''Content-Type'', HStr ''application/json'')]
               @ (if str_truthy etag then [(''if-match'', HStr (fmt etag))] else [])
      in mk_request PATCH u [] hs (Json (PDict properties)) False)"

definition update_item ::
  "server \<Rightarrow> string \<Rightarrow> pydict \<Rightarrow> string option \<Rightarrow> string option \<Rightarrow> string option \<Rightarrow>
   string option \<Rightarrow> string option \<Rightarrow> pydict option io" where
  "update_item srv item_id properties drive_id user_id group_id site_id etag =
     except_http
       (bind_io (ensure_token srv) (\<lambda>_ c.
          if length (given_ids [drive_id, user_id, group_id, site_id]) > 1 then
            raise (ValueError one_id_msg) c
          else
            bind_io
              (send srv (update_item_request c item_id properties drive_id user_id group_id
                           site_id etag))
              (\<lambda>response.
                 if status_code response = 412 then ret None
                 else bind_io (raise_for_status response) (\<lambda>_.
                      bind_io (json response) (\<lambda>d. ret (Some d)))) c))
       (drive_http_error ''Files.ReadWrite o Files.ReadWrite.All''
          ''actualizar elementos en este drive'' [])"

definition upload_content ::
  "server \<Rightarrow> bytes \<Rightarrow> string option \<Rightarrow> string option \<Rightarrow> string option \<Rightarrow> string option \<Rightarrow>
   string option \<Rightarrow> string option \<Rightarrow> string option \<Rightarrow> string \<Rightarrow> pydict io" where
  "upload_content srv data filename item_id parent_id drive_id user_id group_id site_id
     content_type =
     except_http
       (bind_io (ensure_token srv) (\<lambda>_ c.
          if length data > 250 * 1024 * 1024 then
            raise (ValueError (''El archivo excede el limite de 250MB. ''
                     @ ''Use upload_large_file para archivos mas grandes'')) c
          else if length (given_ids [drive_id, user_id, group_id, site_id]) > 1 then
            raise (ValueError one_id_msg) c
          else if str_truthy item_id \<and> (str_truthy filename \<or> str_truthy parent_id) then
            raise (ValueError (''Para actualizar un archivo use solo item_id. ''
                     @ ''Para crear uno nuevo use filename y parent_id'')) c
          else if \<not> str_truthy item_id \<and> (\<not> str_truthy filename \<or> \<not> str_truthy parent_id)
          then
            raise (ValueError
                     ''Para crear un archivo nuevo debe proporcionar filename y parent_id'') c
          else
            (let base = drive_base_url c drive_id user_id group_id site_id;
                 u = (if str_truthy item_id then base @ ''/items/'' @ fmt item_id @ ''/content''
                      else base @ ''/items/'' @ fmt parent_id @ '':/'' @ fmt filename
                           @ '':/content'');
                 hs = [auth_header c, (''Content-Type'', HStr content_type)]
             in bind_io (send srv (mk_request PUT u [] hs (Raw data) False))
                  (\<lambda>response. bind_io (raise_for_status response) (\<lambda>_. json response)) c)))
       (drive_http_error ''Files.ReadWrite o Files.ReadWrite.All''
          ''subir archivos en este drive''
          [(413, ValueError (''El archivo excede el limite permitido. ''
                   @ ''Use upload_large_file para archivos mas grandes''))])"

definition download_content ::
  "server \<Rightarrow> string option \<Rightarrow> string option \<Rightarrow> string option \<Rightarrow> string option \<Rightarrow>
   string option \<Rightarrow> string option \<Rightarrow> string option \<Rightarrow> (int \<times> int) option \<Rightarrow>
   bytes option io" where
  "download_content srv item_id item_path drive_id user_id group_id site_id etag byte_range =
     except_http
       (bind_io (ensure_token srv) (\<lambda>_ c.
          if length (given_ids [drive_id, user_id, group_id, site_id]) > 1 then
            raise (ValueError one_id_msg) c
          else if item_id = None \<and> item_path = None then
            raise (ValueError ''Debe proporcionar item_id o item_path'') c
          else if item_id \<noteq> None \<and> item_path \<noteq> None then
            raise (ValueError both_item_msg) c
          else
            (let base = drive_base_url c drive_id user_id group_id site_id;
                 u = (if item_path \<noteq> None
                      then base @ ''/root:/'' @ strip_slash (fmt item_path) @ '':/content''
                      else base @ ''/items/'' @ fmt item_id @ ''/content'');
                 hs = [auth_header c]
                      @ (if str_truthy etag then [(''if-none-match'', HStr (fmt etag))] else [])
                      @ (case byte_range of
                           None \<Rightarrow> []
                         | Some (a, b) \<Rightarrow> [(''Range'', HRange a b)])
             in bind_io (send srv (mk_request GET u [] hs NoBody True))
                  (\<lambda>response.
                     if status_code response = 304 then ret None
                     else bind_io (raise_for_status response) (\<lambda>_.
                          ret (Some (body_content response)))) c)))
       (drive_http_error ''Files.Read o Files.Read.All''
          ''descargar archivos de este drive'' [(404, FileNotFoundError ''El archivo solicitado no existe'')])"


section \<open>Specification-side definitions and sample inputs\<close>

text \<open>
  The spec's chunk ranges, in its words: for a payload of size \<open>S\<close> and chunk size \<open>C\<close>,
  chunk \<open>i\<close> covers \<open>[i*C, min((i+1)*C, S) - 1]\<close>, and there are \<open>ceil(S / C)\<close> chunks.
\<close>

definition chunk_range :: "nat \<Rightarrow> nat \<Rightarrow> nat \<Rightarrow> int \<times> int" where
  "chunk_range S C i = (int (i * C), int (min ((i + 1) * C) S) - 1)"

definition num_chunks :: "nat \<Rightarrow> nat \<Rightarrow> nat" where
  "num_chunks S C = (S + C - 1) div C"

text \<open>
  What a request met on the remote side: \<open>accepted\<close> when a response came back with a 2xx
  status, and otherwise the exception that \<open>send\<close> or \<open>raise_for_status\<close> raises.
\<close>

fun accepted :: "reply \<Rightarrow> bool" where
  "accepted NetFail = False"
| "accepted (Reply r) = is_success r"

fun reply_error :: "reply \<Rightarrow> error" where
  "reply_error NetFail = TransportError"
| "reply_error (Reply r) = HTTPStatusError r"

text \<open>The request that the loop iteration at offset \<open>start\<close> sends.\<close>

definition step_request :: "string \<Rightarrow> bytes \<Rightarrow> nat \<Rightarrow> nat \<Rightarrow> request" where
  "step_request u data file_size start =
     upload_chunk_request u (take chunk_size (drop start data)) (int start)
       (int start + int (length (take chunk_size (drop start data))) - 1) (int file_size)"

text \<open>A client with a cached token and one without, and remote sides to run them against.\<close>

definition client0 :: client where
  "client0 = \<lparr>token = PStr ''tok'', client_id = ''id'', client_secret = ''secret'',
              tenant_id = ''tn'', base_url = ''https://graph.microsoft.com/v1.0'',
              token_url = ''https://login.microsoftonline.com/tn/oauth2/v2.0/token'',
              is_delegated = False, calls = []\<rparr>"

definition fresh_client :: client where
  "fresh_client = client0\<lparr>token := PNone\<rparr>"

definition ok_response :: "pydict \<Rightarrow> response" where
  "ok_response d = \<lparr>status_code = 200, json_body = Some d, body_text = [], body_content = []\<rparr>"

definition status_response :: "nat \<Rightarrow> response" where
  "status_response n = \<lparr>status_code = n, json_body = Some [], body_text = [], body_content = []\<rparr>"

text \<open>A remote side that accepts everything and answers every request with the same JSON.\<close>

definition friendly_server :: server where
  "friendly_server n rq =
     Reply (ok_response [(''access_token'', PStr ''tok''),
                         (''uploadUrl'', PStr ''https://upload.example/session'')])"

definition no_files :: "string \<Rightarrow> bytes option" where
  "no_files p = None"

definition no_guess :: "string \<Rightarrow> string option" where
  "no_guess name = None"

text \<open>
  Recipient shapes: the ones \<^verbatim>\<open>_process_recipients\<close> turns into an entry (a string, a
  tuple of one or two elements, a dict), the types it rejects, and the entries that carry
  the key \<^verbatim>\<open>emailAddress\<close>.
\<close>

fun supported :: "pyval \<Rightarrow> bool" where
  "supported (PStr s) = True"
| "supported (PTuple xs) = (length xs = 1 \<or> length xs = 2)"
| "supported (PDict d) = True"
| "supported other = False"

fun other_type :: "pyval \<Rightarrow> bool" where
  "other_type (PStr s) = False"
| "other_type (PTuple xs) = False"
| "other_type (PDict d) = False"
| "other_type other = True"

fun has_email_address :: "pyval \<Rightarrow> bool" where
  "has_email_address (PDict d) = has_key d ''emailAddress''"
| "has_email_address other = False"

text \<open>
  A remote side that refuses the third request it sees, a payload of 10 MiB, and the JSON
  that \<open>friendly_server\<close> answers with.
\<close>

definition flaky_server :: server where
  "flaky_server n rq = (if n = 2 then Reply (status_response 503) else friendly_server n rq)"

definition ten_mib :: bytes where
  "ten_mib = replicate 10485760 0"

definition sample_session :: pydict where
  "sample_session = [(''access_token'', PStr ''tok''),
                     (''uploadUrl'', PStr ''https://upload.example/session'')]"

text \<open>
  The request that the spec asks for the chunk with the byte range \<open>[a, b]\<close> of a payload:
  a PUT to the upload URL that carries the bytes \<open>data[a..b]\<close>, their number
  \<open>b - a + 1\<close> as \<^verbatim>\<open>Content-Length\<close>, and the content range \<open>a-b/total\<close>.
\<close>

definition range_request :: "string \<Rightarrow> bytes \<Rightarrow> int \<times> int \<Rightarrow> request" where
  "range_request u data rg =
     \<lparr>meth = PUT, rq_url = u, params = [],
      headers = [(''Content-Length'', HLen (nat (snd rg - fst rg + 1))),
                 (''Content-Range'', HContentRange (fst rg) (snd rg) (int (length data)))],
      payload = Raw (take (nat (snd rg - fst rg + 1)) (drop (nat (fst rg)) data)),
      follow_redirects = False\<rparr>"

text \<open>A payload of 10 MiB whose bytes tell its three chunks apart.\<close>

definition striped_payload :: bytes where
  "striped_payload = replicate 4194304 1 @ replicate 4194304 2 @ replicate 2097152 3"

section \<open>The result monad\<close>

lemma bind_io_Inl: "m c = (Inl e, c') \<Longrightarrow> bind_io m f c = (Inl e, c')"
  by (simp add: bind_io_def)

lemma bind_io_Inr: "m c = (Inr x, c') \<Longrightarrow> bind_io m f c = f x c'"
  by (simp add: bind_io_def)

lemma bind_io_ret: "bind_io (ret x) f c = f x c"
  by (simp add: bind_io_def ret_def)

lemma bind_io_raise: "bind_io (raise e) f c = (Inl e, c)"
  by (simp add: bind_io_def raise_def)

lemma ensure_token_cached: "truthy (token c) \<Longrightarrow> ensure_token srv c = (Inr (), c)"
  by (simp add: ensure_token_def ret_def)

section \<open>Attachments: size limits\<close>

lemma length_b64encode: "length (b64encode xs) = 4 * ((length xs + 2) div 3)"
proof (induction xs rule: b64encode.induct)
  case (4 a b c rest)
  have "(length rest + 5) div 3 = Suc ((length rest + 2) div 3)" by presburger
  with 4 show ?case by (simp add: add.commute)
qed simp_all

lemma b64encode_Nil_iff: "b64encode xs = [] \<longleftrightarrow> xs = []"
  by (cases xs rule: b64encode.cases) simp_all

text \<open>
  Claim C2, at the boundary of the inline strategy.  A payload of exactly 3 MiB takes the
  inline branch of \<^verbatim>\<open>add_attachment\<close>; its base64 text has 4194304 characters, which
  \<^verbatim>\<open>_add_attachment_raw\<close> rejects against its own 3 MiB limit.  With a cached token the
  call raises \<^verbatim>\<open>ValueError\<close> and the client is unchanged: no request was sent, where
  the claim has exactly one.
\<close>

theorem add_attachment_3MiB_inline_rejected:
  "add_attachment srv fs guess_type ''msg'' None (Some (replicate 3145728 0)) (Some ''a.bin'')
     (Some ''user'') False None client0
   = (Inl (ValueError ''El adjunto excede el limite de 3MB''), client0)"
  by (simp add: add_attachment_def bind_io_ret add_attachment_raw_def except_http_def
      ensure_token_cached client0_def bind_io_def ret_def raise_def length_b64encode
      b64encode_Nil_iff)

theorem add_attachment_3MiB_inline_rejected_witness:
  "add_attachment friendly_server no_files no_guess ''msg'' None (Some (replicate 3145728 0))
     (Some ''a.bin'') (Some ''user'') False None client0
   = (Inl (ValueError ''El adjunto excede el limite de 3MB''), client0)
   \<and> calls client0 = []"
  using add_attachment_3MiB_inline_rejected[of friendly_server no_files no_guess]
  by (simp add: client0_def)

text \<open>
  Claim C3.  A payload larger than 150 MiB, given either as \<^verbatim>\<open>content\<close> with
  \<^verbatim>\<open>file_name\<close> or as the path of an existing file, makes \<^verbatim>\<open>add_attachment\<close> raise
  \<^verbatim>\<open>ValueError\<close> (the code's exception for the spec's ValidationError) and leaves the
  client as it was: no token exchange, no upload session, no chunk.
\<close>

theorem add_attachment_over_cap:
  assumes "(file_path = None \<and> content = Some data \<and> file_name = Some name)
           \<or> (file_path = Some p \<and> p \<noteq> [] \<and> content = None \<and> file_name = None
               \<and> fs p = Some data)"
      and "length data > cap"
  shows "add_attachment srv fs guess_type message_id file_path content file_name user_id
           is_inline content_type c
         = (Inl (ValueError ''El archivo excede el limite maximo de 150MB''), c)"
  using assms
  by (auto simp: add_attachment_def cap_def bind_io_ret raise_def bind_io_def ret_def)

theorem add_attachment_over_cap_witness:
  "length (replicate 157286401 (0 :: 8 word)) > cap
   \<and> add_attachment friendly_server no_files no_guess ''msg'' None
        (Some (replicate 157286401 0)) (Some ''a.bin'') (Some ''user'') False None fresh_client
      = (Inl (ValueError ''El archivo excede el limite maximo de 150MB''), fresh_client)"
  using add_attachment_over_cap[of None "Some (replicate 157286401 0)"
      "replicate 157286401 0" "Some ''a.bin''" "''a.bin''" "[]" no_files friendly_server
      no_guess "''msg''" "Some ''user''" False None fresh_client]
  by (simp add: cap_def)

section \<open>Recipients\<close>

lemma process_recipient_supported:
  assumes "supported r"
  shows "\<exists>p. process_recipient r = Inr p \<and> has_email_address p"
proof (cases r)
  case (PTuple xs)
  with assms have "length xs = 1 \<or> length xs = 2" by simp
  then show ?thesis
  proof
    assume "length xs = 1"
    then obtain a where "xs = [a]" by (cases xs) auto
    then show ?thesis using PTuple by (simp add: email_address_def has_key_def)
  next
    assume "length xs = 2"
    then obtain a b where "xs = [a, b]"
      by (cases xs; cases "tl xs") auto
    then show ?thesis using PTuple by (simp add: email_address_def has_key_def)
  qed
qed (use assms in \<open>auto simp: email_address_def has_key_def\<close>)

lemma process_recipient_entry:
  assumes "process_recipient r = Inr p"
  shows "(\<forall>s. r = PStr s \<longrightarrow>
            p = PDict [(''emailAddress'', PDict [(''address'', PStr s), (''name'', PStr [])])])
       \<and> (\<forall>a. r = PTuple [a] \<longrightarrow>
            p = PDict [(''emailAddress'', PDict [(''address'', a), (''name'', PStr [])])])
       \<and> (\<forall>a b. r = PTuple [a, b] \<longrightarrow>
            p = PDict [(''emailAddress'', PDict [(''address'', a), (''name'', b)])])
       \<and> (\<forall>d. r = PDict d \<and> has_key d ''emailAddress'' \<longrightarrow> p = PDict d)
       \<and> (\<forall>d. r = PDict d \<and> \<not> has_key d ''emailAddress'' \<longrightarrow>
            p = PDict [(''emailAddress'',
                        PDict [(''address'', dict_get d ''address'' PNone),
                               (''name'', dict_get d ''name'' (PStr []))])])"
proof (intro conjI allI impI)
  fix s assume "r = PStr s"
  with assms
  show "p = PDict [(''emailAddress'', PDict [(''address'', PStr s), (''name'', PStr [])])]"
    by (simp add: email_address_def)
next
  fix a assume "r = PTuple [a]"
  with assms
  show "p = PDict [(''emailAddress'', PDict [(''address'', a), (''name'', PStr [])])]"
    by (simp add: email_address_def)
next
  fix a b assume "r = PTuple [a, b]"
  with assms
  show "p = PDict [(''emailAddress'', PDict [(''address'', a), (''name'', b)])]"
    by (simp add: email_address_def)
next
  fix d assume "r = PDict d \<and> has_key d ''emailAddress''"
  with assms show "p = PDict d" by simp
next
  fix d assume "r = PDict d \<and> \<not> has_key d ''emailAddress''"
  with assms
  show "p = PDict [(''emailAddress'',
                    PDict [(''address'', dict_get d ''address'' PNone),
                           (''name'', dict_get d ''name'' (PStr []))])]"
    by (simp add: email_address_def)
qed

lemma process_recipient_other:
  "other_type r \<Longrightarrow> process_recipient r =
     Inl (ValueErrorOf ''Formato de destinatario no soportado: '' r
            ''. Use string, tuple o dict'')"
  by (cases r) simp_all

lemma process_recipient_long_tuple:
  assumes "3 \<le> length xs"
  shows "process_recipient (PTuple xs) = Inl (ValueError ''too many values to unpack (expected 2)'')"
proof -
  from assms obtain a b c rest where "xs = a # b # c # rest"
    by (cases xs; cases "tl xs"; cases "tl (tl xs)") auto
  then show ?thesis by simp
qed

lemma process_recipients_loop_supported:
  assumes "list_all supported rs"
  shows "\<exists>out. process_recipients_loop acc rs = Inr (acc @ out) \<and> length out = length rs
           \<and> (\<forall>i<length rs. process_recipient (rs ! i) = Inr (out ! i)
                 \<and> has_email_address (out ! i))"
  using assms
proof (induction rs arbitrary: acc)
  case Nil
  then show ?case by simp
next
  case (Cons r rs)
  then obtain p where p: "process_recipient r = Inr p" "has_email_address p"
    using process_recipient_supported[of r] by auto
  have rest: "list_all supported rs" using Cons.prems by simp
  from Cons.IH[OF rest, of "acc @ [p]"] obtain out where out:
    "process_recipients_loop (acc @ [p]) rs = Inr ((acc @ [p]) @ out)"
    "length out = length rs"
    "\<forall>i<length rs. process_recipient (rs ! i) = Inr (out ! i) \<and> has_email_address (out ! i)"
    by blast
  have "\<forall>i<length (r # rs). process_recipient ((r # rs) ! i) = Inr ((p # out) ! i)
           \<and> has_email_address ((p # out) ! i)"
  proof (intro allI impI)
    fix i assume "i < length (r # rs)"
    then show "process_recipient ((r # rs) ! i) = Inr ((p # out) ! i)
           \<and> has_email_address ((p # out) ! i)"
      using p out(3) by (cases i) auto
  qed
  then show ?case using p out(1,2) by (intro exI[of _ "p # out"]) simp
qed

lemma process_recipients_loop_raises:
  assumes "list_all supported pre" "process_recipient r = Inl e"
  shows "process_recipients_loop acc (pre @ r # post) = Inl e"
  using assms
proof (induction pre arbitrary: acc)
  case Nil
  then show ?case by simp
next
  case (Cons a pre)
  then obtain p where "process_recipient a = Inr p"
    using process_recipient_supported[of a] by auto
  then show ?case using Cons by simp
qed

text \<open>
  Claim C10 as stated fails on a tuple of three elements, which is a non-empty tuple:
  unpacking it into \<^verbatim>\<open>email, name\<close> raises \<^verbatim>\<open>ValueError\<close> and no list is returned.
\<close>

theorem process_recipients_three_tuple_raises:
  "process_recipients [PTuple [PStr ''ana@example.org'', PStr ''Ana'', PStr ''extra'']]
   = Inl (ValueError ''too many values to unpack (expected 2)'')"
  by (simp add: process_recipients_def)

text \<open>
  Claim C10, amended.  When every element is a string, a tuple of one or two elements or a
  dict, \<^verbatim>\<open>_process_recipients\<close> returns a list of the same length whose \<open>i\<close>-th entry
  is a dict with the key \<^verbatim>\<open>emailAddress\<close>, made from the \<open>i\<close>-th recipient: for a
  string \<open>s\<close> the address \<open>s\<close> with the name \<^verbatim>\<open>""\<close>, for \<open>(a,)\<close> the address \<open>a\<close>
  with the name \<^verbatim>\<open>""\<close>, for \<open>(a, b)\<close> the address \<open>a\<close> with the name \<open>b\<close>, for a
  dict that has \<^verbatim>\<open>emailAddress\<close> the dict itself, and for any other dict its
  \<^verbatim>\<open>address\<close> (or \<^verbatim>\<open>None\<close>) and its \<^verbatim>\<open>name\<close> (or \<^verbatim>\<open>""\<close>).  The first
  element that is not of these shapes makes the whole call raise, whatever follows it in
  the list: the empty tuple raises \<^verbatim>\<open>IndexError\<close>, a tuple of three or more elements
  raises the \<^verbatim>\<open>ValueError\<close> of the unpacking, and an element of any other type raises
  the \<^verbatim>\<open>ValueError\<close> whose message names that element.
\<close>

theorem process_recipients_shape:
  "(list_all supported rs \<longrightarrow>
      (\<exists>out. process_recipients rs = Inr out \<and> length out = length rs
         \<and> (\<forall>i<length rs.
               has_email_address (out ! i)
             \<and> (\<forall>s. rs ! i = PStr s \<longrightarrow>
                  out ! i = PDict [(''emailAddress'',
                                    PDict [(''address'', PStr s), (''name'', PStr [])])])
             \<and> (\<forall>a. rs ! i = PTuple [a] \<longrightarrow>
                  out ! i = PDict [(''emailAddress'',
                                    PDict [(''address'', a), (''name'', PStr [])])])
             \<and> (\<forall>a b. rs ! i = PTuple [a, b] \<longrightarrow>
                  out ! i = PDict [(''emailAddress'',
                                    PDict [(''address'', a), (''name'', b)])])
             \<and> (\<forall>d. rs ! i = PDict d \<and> has_key d ''emailAddress'' \<longrightarrow> out ! i = PDict d)
             \<and> (\<forall>d. rs ! i = PDict d \<and> \<not> has_key d ''emailAddress'' \<longrightarrow>
                  out ! i = PDict [(''emailAddress'',
                                    PDict [(''address'', dict_get d ''address'' PNone),
                                           (''name'', dict_get d ''name'' (PStr []))])]))))
   \<and> (list_all supported pre \<longrightarrow>
        process_recipients (pre @ PTuple [] # post) = Inl IndexError)
   \<and> (list_all supported pre \<and> 3 \<le> length xs \<longrightarrow>
        process_recipients (pre @ PTuple xs # post)
        = Inl (ValueError ''too many values to unpack (expected 2)''))
   \<and> (list_all supported pre \<and> other_type x \<longrightarrow>
        process_recipients (pre @ x # post)
        = Inl (ValueErrorOf ''Formato de destinatario no soportado: '' x
                 ''. Use string, tuple o dict''))"
proof (intro conjI impI)
  assume "list_all supported rs"
  from process_recipients_loop_supported[OF this, of "[]"] obtain out where
    out: "process_recipients rs = Inr out" "length out = length rs"
    and each: "\<forall>i<length rs. process_recipient (rs ! i) = Inr (out ! i)
                 \<and> has_email_address (out ! i)"
    by (auto simp: process_recipients_def)
  show "\<exists>out. process_recipients rs = Inr out \<and> length out = length rs
         \<and> (\<forall>i<length rs.
               has_email_address (out ! i)
             \<and> (\<forall>s. rs ! i = PStr s \<longrightarrow>
                  out ! i = PDict [(''emailAddress'',
                                    PDict [(''address'', PStr s), (''name'', PStr [])])])
             \<and> (\<forall>a. rs ! i = PTuple [a] \<longrightarrow>
                  out ! i = PDict [(''emailAddress'',
                                    PDict [(''address'', a), (''name'', PStr [])])])
             \<and> (\<forall>a b. rs ! i = PTuple [a, b] \<longrightarrow>
                  out ! i = PDict [(''emailAddress'',
                                    PDict [(''address'', a), (''name'', b)])])
             \<and> (\<forall>d. rs ! i = PDict d \<and> has_key d ''emailAddress'' \<longrightarrow> out ! i = PDict d)
             \<and> (\<forall>d. rs ! i = PDict d \<and> \<not> has_key d ''emailAddress'' \<longrightarrow>
                  out ! i = PDict [(''emailAddress'',
                                    PDict [(''address'', dict_get d ''address'' PNone),
                                           (''name'', dict_get d ''name'' (PStr []))])]))"
  proof (intro exI[of _ out] conjI allI impI)
    show "process_recipients rs = Inr out" by (rule out(1))
    show "length out = length rs" by (rule out(2))
  next
    fix i assume "i < length rs"
    with each show "has_email_address (out ! i)" by blast
  next
    fix i s assume "i < length rs" "rs ! i = PStr s"
    with each process_recipient_entry[of "rs ! i" "out ! i"]
    show "out ! i = PDict [(''emailAddress'',
                            PDict [(''address'', PStr s), (''name'', PStr [])])]"
      by blast
  next
    fix i a assume "i < length rs" "rs ! i = PTuple [a]"
    with each process_recipient_entry[of "rs ! i" "out ! i"]
    show "out ! i = PDict [(''emailAddress'', PDict [(''address'', a), (''name'', PStr [])])]"
      by blast
  next
    fix i a b assume "i < length rs" "rs ! i = PTuple [a, b]"
    with each process_recipient_entry[of "rs ! i" "out ! i"]
    show "out ! i = PDict [(''emailAddress'', PDict [(''address'', a), (''name'', b)])]"
      by blast
  next
    fix i d assume "i < length rs" "rs ! i = PDict d \<and> has_key d ''emailAddress''"
    with each process_recipient_entry[of "rs ! i" "out ! i"]
    show "out ! i = PDict d" by blast
  next
    fix i d assume "i < length rs" "rs ! i = PDict d \<and> \<not> has_key d ''emailAddress''"
    with each process_recipient_entry[of "rs ! i" "out ! i"]
    show "out ! i = PDict [(''emailAddress'',
                            PDict [(''address'', dict_get d ''address'' PNone),
                                   (''name'', dict_get d ''name'' (PStr []))])]"
      by blast
  qed
next
  assume "list_all supported pre"
  then show "process_recipients (pre @ PTuple [] # post) = Inl IndexError"
    unfolding process_recipients_def
    by (rule process_recipients_loop_raises) simp
next
  assume "list_all supported pre \<and> 3 \<le> length xs"
  then have pre: "list_all supported pre" and len: "3 \<le> length xs" by simp_all
  show "process_recipients (pre @ PTuple xs # post)
        = Inl (ValueError ''too many values to unpack (expected 2)'')"
    unfolding process_recipients_def
    by (rule process_recipients_loop_raises[OF pre process_recipient_long_tuple[OF len]])
next
  assume "list_all supported pre \<and> other_type x"
  then have pre: "list_all supported pre" and oth: "other_type x" by simp_all
  show "process_recipients (pre @ x # post)
        = Inl (ValueErrorOf ''Formato de destinatario no soportado: '' x
                 ''. Use string, tuple o dict'')"
    unfolding process_recipients_def
    by (rule process_recipients_loop_raises[OF pre process_recipient_other[OF oth]])
qed

theorem process_recipients_shape_witness:
  "process_recipients
     [PStr ''ana@example.org'', PTuple [PStr ''bo@example.org''],
      PTuple [PStr ''cy@example.org'', PStr ''Cy''],
      PDict [(''address'', PStr ''di@example.org'')],
      PDict [(''emailAddress'', PStr ''kept'')]]
   = Inr [PDict [(''emailAddress'',
                  PDict [(''address'', PStr ''ana@example.org''), (''name'', PStr [])])],
          PDict [(''emailAddress'',
                  PDict [(''address'', PStr ''bo@example.org''), (''name'', PStr [])])],
          PDict [(''emailAddress'',
                  PDict [(''address'', PStr ''cy@example.org''), (''name'', PStr ''Cy'')])],
          PDict [(''emailAddress'',
                  PDict [(''address'', PStr ''di@example.org''), (''name'', PStr [])])],
          PDict [(''emailAddress'', PStr ''kept'')]]
   \<and> process_recipients [PStr ''ana@example.org'', PTuple [], PStr ''bo@example.org'']
     = Inl IndexError
   \<and> process_recipients
       [PStr ''ana@example.org'', PTuple [PStr ''x'', PStr ''y'', PStr ''z''],
        PStr ''bo@example.org'']
     = Inl (ValueError ''too many values to unpack (expected 2)'')
   \<and> process_recipients [PStr ''ana@example.org'', PInt 5, PStr ''bo@example.org'']
     = Inl (ValueErrorOf ''Formato de destinatario no soportado: '' (PInt 5)
              ''. Use string, tuple o dict'')"
proof -
  let ?rs = "[PStr ''ana@example.org'', PTuple [PStr ''bo@example.org''],
              PTuple [PStr ''cy@example.org'', PStr ''Cy''],
              PDict [(''address'', PStr ''di@example.org'')],
              PDict [(''emailAddress'', PStr ''kept'')]]"
  let ?e0 = "PDict [(''emailAddress'',
                  PDict [(''address'', PStr ''ana@example.org''), (''name'', PStr [])])]"
  let ?e1 = "PDict [(''emailAddress'',
                  PDict [(''address'', PStr ''bo@example.org''), (''name'', PStr [])])]"
  let ?e2 = "PDict [(''emailAddress'',
                  PDict [(''address'', PStr ''cy@example.org''), (''name'', PStr ''Cy'')])]"
  let ?e3 = "PDict [(''emailAddress'',
                  PDict [(''address'', PStr ''di@example.org''), (''name'', PStr [])])]"
  let ?e4 = "PDict [(''emailAddress'', PStr ''kept'')]"
  note shape = process_recipients_shape[where rs = ?rs and pre = "[PStr ''ana@example.org'']"
      and post = "[PStr ''bo@example.org'']" and xs = "[PStr ''x'', PStr ''y'', PStr ''z'']"
      and x = "PInt 5"]
  have sup: "list_all supported ?rs" by simp
  from shape[THEN conjunct1, THEN mp, OF sup] obtain out where
    run: "process_recipients ?rs = Inr out" and len: "length out = 5"
    and each: "\<forall>i<length ?rs.
               has_email_address (out ! i)
             \<and> (\<forall>s. ?rs ! i = PStr s \<longrightarrow>
                  out ! i = PDict [(''emailAddress'',
                                    PDict [(''address'', PStr s), (''name'', PStr [])])])
             \<and> (\<forall>a. ?rs ! i = PTuple [a] \<longrightarrow>
                  out ! i = PDict [(''emailAddress'',
                                    PDict [(''address'', a), (''name'', PStr [])])])
             \<and> (\<forall>a b. ?rs ! i = PTuple [a, b] \<longrightarrow>
                  out ! i = PDict [(''emailAddress'',
                                    PDict [(''address'', a), (''name'', b)])])
             \<and> (\<forall>d. ?rs ! i = PDict d \<and> has_key d ''emailAddress'' \<longrightarrow> out ! i = PDict d)
             \<and> (\<forall>d. ?rs ! i = PDict d \<and> \<not> has_key d ''emailAddress'' \<longrightarrow>
                  out ! i = PDict [(''emailAddress'',
                                    PDict [(''address'', dict_get d ''address'' PNone),
                                           (''name'', dict_get d ''name'' (PStr []))])])"
    by auto
  have e0: "out ! 0 = ?e0" using each[rule_format, of 0] by simp
  have e1: "out ! 1 = ?e1" using each[rule_format, of 1] by simp
  have e2: "out ! 2 = ?e2" using each[rule_format, of 2] by simp
  have e3: "out ! 3 = ?e3" using each[rule_format, of 3]
    by (simp add: has_key_def dict_get_def)
  have e4: "out ! 4 = ?e4" using each[rule_format, of 4] by (simp add: has_key_def)
  have idx: "i = 0 \<or> i = 1 \<or> i = 2 \<or> i = 3 \<or> i = 4" if "i < 5" for i :: nat
    using that by presburger
  have "out = [?e0, ?e1, ?e2, ?e3, ?e4]"
  proof (rule nth_equalityI)
    show "length out = length [?e0, ?e1, ?e2, ?e3, ?e4]" using len by simp
  next
    fix i assume "i < length out"
    then have "i < 5" using len by simp
    from idx[OF this] show "out ! i = [?e0, ?e1, ?e2, ?e3, ?e4] ! i"
      using e0 e1 e2 e3 e4 by (elim disjE) simp_all
  qed
  with run have first: "process_recipients ?rs = Inr [?e0, ?e1, ?e2, ?e3, ?e4]" by simp
  have empty: "process_recipients [PStr ''ana@example.org'', PTuple [], PStr ''bo@example.org'']
               = Inl IndexError"
    using shape[THEN conjunct2, THEN conjunct1] by simp
  have long: "process_recipients
       [PStr ''ana@example.org'', PTuple [PStr ''x'', PStr ''y'', PStr ''z''],
        PStr ''bo@example.org'']
     = Inl (ValueError ''too many values to unpack (expected 2)'')"
    using shape[THEN conjunct2, THEN conjunct2, THEN conjunct1] by simp
  have other: "process_recipients [PStr ''ana@example.org'', PInt 5, PStr ''bo@example.org'']
     = Inl (ValueErrorOf ''Formato de destinatario no soportado: '' (PInt 5)
              ''. Use string, tuple o dict'')"
    using shape[THEN conjunct2, THEN conjunct2, THEN conjunct2] by simp
  from first empty long other show ?thesis by (intro conjI)
qed

section \<open>Token acquisition\<close>

lemma get_token_eval:
  "get_token srv c =
     (let c1 = c\<lparr>calls := calls c @ [token_request c]\<rparr> in
      case srv (length (calls c)) (token_request c) of
        NetFail \<Rightarrow> (Inl TransportError, c1)
      | Reply r \<Rightarrow>
          if \<not> is_success r then (Inl (HTTPStatusError r), c1)
          else (case json_body r of
                  None \<Rightarrow> (Inl JSONDecodeError, c1)
                | Some d \<Rightarrow>
                    if \<not> has_key d ''access_token''
                    then (Inl (Exception ''No se pudo obtener el token de acceso''), c1)
                    else (Inr (dict_get d ''access_token'' PNone),
                          c1\<lparr>token := dict_get d ''access_token'' PNone\<rparr>)))"
  by (simp add: get_token_def bind_io_def send_def raise_for_status_def json_def ret_def
      raise_def Let_def split: reply.splits option.splits)

lemma get_token_failure_keeps_token:
  "get_token srv c = (Inl e, c') \<Longrightarrow> token c' = token c"
  by (auto simp: get_token_eval Let_def split: reply.splits option.splits if_splits)

text \<open>
  Claim C7, amended.  The answer of the token endpoint decides what \<^verbatim>\<open>get_token\<close>
  does, after the one request it sends.  A 2xx answer whose JSON object lacks
  \<^verbatim>\<open>access_token\<close> raises \<^verbatim>\<open>Exception("No se pudo obtener el token de acceso")\<close>
  (the spec's AuthError).  An answer with any other status raises
  \<^verbatim>\<open>HTTPStatusError\<close> carrying that answer, whatever its body holds.  A 2xx answer
  that has the field returns its value and caches it.  Whenever \<^verbatim>\<open>get_token\<close> raises,
  the cached token is what it was before.
\<close>

theorem get_token_missing_field:
  "(srv (length (calls c)) (token_request c) = Reply r \<and> is_success r
      \<and> json_body r = Some d \<and> \<not> has_key d ''access_token''
    \<longrightarrow> get_token srv c
        = (Inl (Exception ''No se pudo obtener el token de acceso''),
           c\<lparr>calls := calls c @ [token_request c]\<rparr>))
   \<and> (srv (length (calls c)) (token_request c) = Reply r \<and> \<not> is_success r
    \<longrightarrow> get_token srv c
        = (Inl (HTTPStatusError r), c\<lparr>calls := calls c @ [token_request c]\<rparr>))
   \<and> (srv (length (calls c)) (token_request c) = Reply r \<and> is_success r
      \<and> json_body r = Some d \<and> map_of d ''access_token'' = Some tok
    \<longrightarrow> get_token srv c
        = (Inr tok, c\<lparr>calls := calls c @ [token_request c], token := tok\<rparr>))
   \<and> (\<forall>e c'. get_token srv c = (Inl e, c') \<longrightarrow> token c' = token c)"
proof (intro conjI impI allI)
  assume "srv (length (calls c)) (token_request c) = Reply r \<and> is_success r
      \<and> json_body r = Some d \<and> \<not> has_key d ''access_token''"
  then show "get_token srv c
        = (Inl (Exception ''No se pudo obtener el token de acceso''),
           c\<lparr>calls := calls c @ [token_request c]\<rparr>)"
    by (simp add: get_token_eval Let_def)
next
  assume "srv (length (calls c)) (token_request c) = Reply r \<and> \<not> is_success r"
  then show "get_token srv c
        = (Inl (HTTPStatusError r), c\<lparr>calls := calls c @ [token_request c]\<rparr>)"
    by (simp add: get_token_eval Let_def)
next
  assume "srv (length (calls c)) (token_request c) = Reply r \<and> is_success r
      \<and> json_body r = Some d \<and> map_of d ''access_token'' = Some tok"
  then show "get_token srv c
        = (Inr tok, c\<lparr>calls := calls c @ [token_request c], token := tok\<rparr>)"
    by (simp add: get_token_eval Let_def has_key_def dict_get_def)
next
  fix e c'
  assume "get_token srv c = (Inl e, c')"
  then show "token c' = token c" by (rule get_token_failure_keeps_token)
qed

theorem get_token_missing_field_witness:
  "get_token (\<lambda>n rq. Reply (ok_response [(''token_type'', PStr ''Bearer'')])) fresh_client
     = (Inl (Exception ''No se pudo obtener el token de acceso''),
        fresh_client\<lparr>calls := [token_request fresh_client]\<rparr>)
   \<and> token (fresh_client\<lparr>calls := [token_request fresh_client]\<rparr>) = PNone
   \<and> get_token (\<lambda>n rq. Reply (status_response 500)) fresh_client
     = (Inl (HTTPStatusError (status_response 500)),
        fresh_client\<lparr>calls := [token_request fresh_client]\<rparr>)
   \<and> get_token (\<lambda>n rq. Reply (ok_response [(''access_token'', PStr ''abc'')])) fresh_client
     = (Inr (PStr ''abc''),
        fresh_client\<lparr>calls := [token_request fresh_client], token := PStr ''abc''\<rparr>)"
proof -
  have missing: "get_token (\<lambda>n rq. Reply (ok_response [(''token_type'', PStr ''Bearer'')]))
       fresh_client
     = (Inl (Exception ''No se pudo obtener el token de acceso''),
        fresh_client\<lparr>calls := [token_request fresh_client]\<rparr>)"
    using get_token_missing_field[
        of "\<lambda>n rq. Reply (ok_response [(''token_type'', PStr ''Bearer'')])"
        fresh_client "ok_response [(''token_type'', PStr ''Bearer'')]"
        "[(''token_type'', PStr ''Bearer'')]", THEN conjunct1]
    by (simp add: ok_response_def is_success_def has_key_def fresh_client_def client0_def)
  have kept: "token (fresh_client\<lparr>calls := [token_request fresh_client]\<rparr>) = PNone"
    using get_token_missing_field[
        of "\<lambda>n rq. Reply (ok_response [(''token_type'', PStr ''Bearer'')])"
        fresh_client, THEN conjunct2, THEN conjunct2, THEN conjunct2, rule_format,
        OF missing]
    by (simp add: fresh_client_def)
  have status: "get_token (\<lambda>n rq. Reply (status_response 500)) fresh_client
     = (Inl (HTTPStatusError (status_response 500)),
        fresh_client\<lparr>calls := [token_request fresh_client]\<rparr>)"
    using get_token_missing_field[of "\<lambda>n rq. Reply (status_response 500)" fresh_client
        "status_response 500", THEN conjunct2, THEN conjunct1]
    by (simp add: status_response_def is_success_def fresh_client_def client0_def)
  have cached: "get_token (\<lambda>n rq. Reply (ok_response [(''access_token'', PStr ''abc'')]))
       fresh_client
     = (Inr (PStr ''abc''),
        fresh_client\<lparr>calls := [token_request fresh_client], token := PStr ''abc''\<rparr>)"
    using get_token_missing_field[
        of "\<lambda>n rq. Reply (ok_response [(''access_token'', PStr ''abc'')])"
        fresh_client "ok_response [(''access_token'', PStr ''abc'')]"
        "[(''access_token'', PStr ''abc'')]" "PStr ''abc''",
        THEN conjunct2, THEN conjunct2, THEN conjunct1]
    by (simp add: ok_response_def is_success_def fresh_client_def client0_def)
  from missing kept status cached show ?thesis by (intro conjI)
qed

text \<open>
  Claim C7 as stated fails on an answer with an error status: its JSON body lacks
  \<^verbatim>\<open>access_token\<close> too, but \<^verbatim>\<open>raise_for_status\<close> comes first and the exception is
  \<^verbatim>\<open>HTTPStatusError\<close>.
\<close>

theorem get_token_error_status_counterexample:
  "json_body (status_response 400) = Some []
   \<and> \<not> has_key [] ''access_token''
   \<and> get_token (\<lambda>n rq. Reply (status_response 400)) fresh_client
     = (Inl (HTTPStatusError (status_response 400)),
        fresh_client\<lparr>calls := [token_request fresh_client]\<rparr>)"
  by (simp add: get_token_eval status_response_def is_success_def has_key_def fresh_client_def
      client0_def)

section \<open>Drive items: conditional requests\<close>

lemma ensure_token_fresh:
  assumes "\<not> truthy (token c)"
      and "srv (length (calls c)) (token_request c) = Reply r" "is_success r"
      and "json_body r = Some d" "has_key d ''access_token''"
  shows "ensure_token srv c
         = (Inr (), c\<lparr>calls := calls c @ [token_request c],
                        token := dict_get d ''access_token'' PNone\<rparr>)"
  using assms by (simp add: ensure_token_def bind_io_def get_token_eval Let_def ret_def)

lemma except_http_ValueError:
  "m c = (Inl (ValueError msg), c') \<Longrightarrow> except_http m h c = (Inl (ValueError msg), c')"
  by (simp add: except_http_def)

lemma except_http_Inr:
  "m c = (Inr x, c') \<Longrightarrow> except_http m h c = (Inr x, c')"
  by (simp add: except_http_def)



text \<open>
  Claim C8.  Whenever \<^verbatim>\<open>get_item\<close> sends its GET request (a token is cached or was
  obtained, and none of the checks before the request raised) and the answer has status
  304, the call returns \<^verbatim>\<open>None\<close>: no body is parsed and nothing is raised.
\<close>

theorem get_item_304:
  assumes "ensure_token srv c = (Inr (), c1)"
      and "length (given_ids [drive_id, user_id, group_id, site_id]) \<le> 1"
      and "\<not> (item_id \<noteq> None \<and> item_path \<noteq> None)"
      and "\<not> (\<not> str_truthy drive_id \<and> \<not> str_truthy user_id \<and> \<not> str_truthy group_id
               \<and> str_truthy site_id \<and> str_truthy list_id)"
      and "srv (length (calls c1))
             (get_item_request c1 item_id item_path drive_id user_id group_id site_id list_id
                select expand include_deleted etag)
           = Reply r"
      and "status_code r = 304"
  shows "get_item srv item_id item_path drive_id user_id group_id site_id list_id select expand
           include_deleted etag c
         = (Inr None,
            c1\<lparr>calls := calls c1
               @ [get_item_request c1 item_id item_path drive_id user_id group_id site_id
                    list_id select expand include_deleted etag]\<rparr>)"
proof -
  have valid: "\<not> 1 < length (given_ids [drive_id, user_id, group_id, site_id])"
    using assms(2) by simp
  show ?thesis
    unfolding get_item_def
    by (simp only: bind_io_Inr[where m = "ensure_token srv", OF assms(1)] valid assms(3,4)
          if_False)
       (simp add: bind_io_def send_def ret_def assms(5,6))
qed

theorem get_item_304_witness:
  "get_item (\<lambda>n rq. Reply (status_response 304)) (Some ''item'') None (Some ''drv'') None None
     None None None None False (Some ''etag1'') client0
   = (Inr None,
      client0\<lparr>calls := [get_item_request client0 (Some ''item'') None (Some ''drv'') None None
                            None None None None False (Some ''etag1'')]\<rparr>)"
  using get_item_304[of "\<lambda>n rq. Reply (status_response 304)" client0 client0
      "Some ''drv''" None None None "Some ''item''" None None None None False "Some ''etag1''"
      "status_response 304"]
  by (simp add: ensure_token_cached client0_def given_ids_def status_response_def)

section \<open>Drive operations: addressing\<close>

text \<open>
  Claim C6, amended.  With both \<^verbatim>\<open>item_id\<close> and \<^verbatim>\<open>item_path\<close> given,
  \<^verbatim>\<open>get_item\<close> raises \<^verbatim>\<open>ValueError\<close> (the spec's ValidationError) as soon as a
  token is available, and sends no request for the item: the client is left as the token
  step left it, which is unchanged when a token was cached.
\<close>

theorem get_item_both_path_and_id:
  assumes "item_id \<noteq> None" "item_path \<noteq> None"
      and "ensure_token srv c = (Inr (), c1)"
  shows "get_item srv item_id item_path drive_id user_id group_id site_id list_id select expand
           include_deleted etag c
         = (Inl (ValueError (if 1 < length (given_ids [drive_id, user_id, group_id, site_id])
                             then one_id_msg else both_item_msg)), c1)
         \<and> (truthy (token c) \<longrightarrow> c1 = c)"
proof
  show "get_item srv item_id item_path drive_id user_id group_id site_id list_id select expand
           include_deleted etag c
         = (Inl (ValueError (if 1 < length (given_ids [drive_id, user_id, group_id, site_id])
                             then one_id_msg else both_item_msg)), c1)"
    unfolding get_item_def using assms by (simp add: bind_io_def raise_def)
  show "truthy (token c) \<longrightarrow> c1 = c"
    using assms(3) by (auto simp: ensure_token_cached)
qed

theorem get_item_both_path_and_id_witness:
  "get_item friendly_server (Some ''item'') (Some ''/docs/a.pdf'') None None None None None
     None None False None client0
   = (Inl (ValueError both_item_msg), client0)"
  using get_item_both_path_and_id[of "Some ''item''" "Some ''/docs/a.pdf''" friendly_server
      client0 client0 None None None None None None None False None]
  by (simp add: ensure_token_cached client0_def given_ids_def)

text \<open>
  Claim C6 as stated fails on a client without a cached token: the first statement of
  \<^verbatim>\<open>get_item\<close> fetches one, so the token request has been sent when the
  \<^verbatim>\<open>ValueError\<close> is raised.
\<close>

theorem get_item_token_exchange_first:
  "calls fresh_client = []
   \<and> get_item friendly_server (Some ''item'') (Some ''/docs/a.pdf'') None None None None None
       None None False None fresh_client
     = (Inl (ValueError both_item_msg),
        fresh_client\<lparr>calls := [token_request fresh_client], token := PStr ''tok''\<rparr>)"
  by (simp add: get_item_def bind_io_def raise_def ensure_token_def get_token_eval
      friendly_server_def ok_response_def is_success_def has_key_def dict_get_def ret_def
      fresh_client_def client0_def given_ids_def)

text \<open>
  Claim C5, amended.  For each of \<^verbatim>\<open>get_drive\<close>, \<^verbatim>\<open>get_item\<close>,
  \<^verbatim>\<open>list_items\<close>, \<^verbatim>\<open>list_changes\<close>, \<^verbatim>\<open>create_folder\<close>, \<^verbatim>\<open>update_item\<close>,
  \<^verbatim>\<open>upload_content\<close> and \<^verbatim>\<open>download_content\<close>: when two or more of
  \<^verbatim>\<open>drive_id\<close>, \<^verbatim>\<open>user_id\<close>, \<^verbatim>\<open>group_id\<close>, \<^verbatim>\<open>site_id\<close> are given
  (whichever they are) and a token is available, the operation raises \<^verbatim>\<open>ValueError\<close>
  and sends no request of its own.
\<close>

theorem drive_operations_reject_two_ids:
  assumes "1 < length (given_ids [drive_id, user_id, group_id, site_id])"
      and "ensure_token srv c = (Inr (), c1)"
  shows "get_drive srv drive_id user_id group_id site_id select c
           = (Inl (ValueError ''Solo puede proporcionar un tipo de ID''), c1)
       \<and> get_item srv item_id item_path drive_id user_id group_id site_id list_id select expand
           include_deleted etag c
           = (Inl (ValueError one_id_msg), c1)
       \<and> list_items srv item_id item_path drive_id user_id group_id site_id select expand
           orderby top' c
           = (Inl (ValueError one_id_msg), c1)
       \<and> list_changes srv delta_token drive_id user_id group_id site_id select expand top'
           show_sharing_changes c
           = (Inl (ValueError one_id_msg), c1)
       \<and> create_folder srv name parent_id drive_id user_id group_id site_id conflict_behavior c
           = (Inl (ValueError one_id_msg), c1)
       \<and> update_item srv item properties drive_id user_id group_id site_id etag c
           = (Inl (ValueError one_id_msg), c1)
       \<and> (\<exists>msg. upload_content srv data filename item_id parent_id drive_id user_id group_id
                   site_id content_type c
                 = (Inl (ValueError msg), c1))
       \<and> download_content srv item_id item_path drive_id user_id group_id site_id etag
           byte_range c
           = (Inl (ValueError one_id_msg), c1)"
proof (intro conjI)
  note tok = bind_io_Inr[where m = "ensure_token srv", OF assms(2)]
  have pos: "length (given_ids [drive_id, user_id, group_id, site_id]) \<noteq> 0"
    using assms(1) by linarith
  show "get_drive srv drive_id user_id group_id site_id select c
           = (Inl (ValueError ''Solo puede proporcionar un tipo de ID''), c1)"
    unfolding get_drive_def by (simp only: tok Let_def pos assms(1) if_True if_False raise_def)
  show "get_item srv item_id item_path drive_id user_id group_id site_id list_id select expand
           include_deleted etag c
           = (Inl (ValueError one_id_msg), c1)"
    unfolding get_item_def by (simp only: tok assms(1) if_True raise_def)
  show "list_items srv item_id item_path drive_id user_id group_id site_id select expand
           orderby top' c
           = (Inl (ValueError one_id_msg), c1)"
    unfolding list_items_def by (simp only: tok assms(1) if_True raise_def)
  show "list_changes srv delta_token drive_id user_id group_id site_id select expand top'
           show_sharing_changes c
           = (Inl (ValueError one_id_msg), c1)"
    unfolding list_changes_def by (simp only: tok assms(1) if_True raise_def)
  show "create_folder srv name parent_id drive_id user_id group_id site_id conflict_behavior c
           = (Inl (ValueError one_id_msg), c1)"
    unfolding create_folder_def
    by (rule except_http_ValueError)
       (simp only: tok Let_def pos assms(1) if_True if_False raise_def)
  show "update_item srv item properties drive_id user_id group_id site_id etag c
           = (Inl (ValueError one_id_msg), c1)"
    unfolding update_item_def
    by (rule except_http_ValueError) (simp only: tok assms(1) if_True raise_def)
  show "\<exists>msg. upload_content srv data filename item_id parent_id drive_id user_id group_id
                   site_id content_type c
                 = (Inl (ValueError msg), c1)"
  proof (cases "length data > 250 * 1024 * 1024")
    case True
    have "upload_content srv data filename item_id parent_id drive_id user_id group_id
            site_id content_type c
          = (Inl (ValueError (''El archivo excede el limite de 250MB. ''
                     @ ''Use upload_large_file para archivos mas grandes'')), c1)"
      unfolding upload_content_def
      by (rule except_http_ValueError) (simp only: tok True if_True raise_def)
    then show ?thesis by blast
  next
    case False
    have "upload_content srv data filename item_id parent_id drive_id user_id group_id
            site_id content_type c
          = (Inl (ValueError one_id_msg), c1)"
      unfolding upload_content_def
      by (rule except_http_ValueError) (simp only: tok False assms(1) if_True if_False raise_def)
    then show ?thesis by blast
  qed
  show "download_content srv item_id item_path drive_id user_id group_id site_id etag
           byte_range c
           = (Inl (ValueError one_id_msg), c1)"
    unfolding download_content_def
    by (rule except_http_ValueError) (simp only: tok assms(1) if_True raise_def)
qed

theorem drive_operations_reject_two_ids_witness:
  "get_drive friendly_server (Some ''drv'') (Some ''usr'') None None None client0
     = (Inl (ValueError ''Solo puede proporcionar un tipo de ID''), client0)
   \<and> get_item friendly_server (Some ''item'') None (Some ''drv'') (Some ''usr'') None None None
       None None False None client0
     = (Inl (ValueError one_id_msg), client0)
   \<and> list_items friendly_server (Some ''item'') None (Some ''drv'') (Some ''usr'') None None
       None None None None client0
     = (Inl (ValueError one_id_msg), client0)
   \<and> list_changes friendly_server None (Some ''drv'') (Some ''usr'') None None None None None
       False client0
     = (Inl (ValueError one_id_msg), client0)
   \<and> create_folder friendly_server ''docs'' None (Some ''drv'') (Some ''usr'') None None
       ''rename'' client0
     = (Inl (ValueError one_id_msg), client0)
   \<and> update_item friendly_server ''item'' [] (Some ''drv'') (Some ''usr'') None None None
       client0
     = (Inl (ValueError one_id_msg), client0)
   \<and> (\<exists>msg. upload_content friendly_server [] None (Some ''item'') None (Some ''drv'')
               (Some ''usr'') None None ''text/plain'' client0
             = (Inl (ValueError msg), client0))
   \<and> download_content friendly_server (Some ''item'') None (Some ''drv'') (Some ''usr'') None
       None None None client0
     = (Inl (ValueError one_id_msg), client0)"
  using drive_operations_reject_two_ids[where drive_id = "Some ''drv''"
      and user_id = "Some ''usr''" and group_id = None and site_id = None
      and srv = friendly_server and c = client0 and ?c1.0 = client0 and select = None
      and item_id = "Some ''item''" and item_path = None and list_id = None and expand = None
      and include_deleted = False and etag = None and orderby = None and top' = None
      and delta_token = None and show_sharing_changes = False and name = "''docs''"
      and parent_id = None and conflict_behavior = "''rename''" and item = "''item''"
      and properties = "[]" and data = "[]" and filename = None
      and content_type = "''text/plain''" and byte_range = None]
  by (simp add: ensure_token_cached client0_def given_ids_def)

text \<open>
  Claim C5 as stated fails on \<^verbatim>\<open>list_drives\<close>: given \<^verbatim>\<open>user_id\<close> together with
  \<^verbatim>\<open>resource_id\<close> and \<^verbatim>\<open>resource_type\<close>, it raises nothing and lists the drives
  of the resource, ignoring \<^verbatim>\<open>user_id\<close>.
\<close>

theorem list_drives_silent_precedence:
  "list_drives friendly_server (Some ''user'') (Some ''grp'') (Some ''groups'') None client0
   = (Inr [(''access_token'', PStr ''tok''),
           (''uploadUrl'', PStr ''https://upload.example/session'')],
      client0\<lparr>calls := [mk_request GET ''https://graph.microsoft.com/v1.0/groups/grp/drives''
                            [] [auth_header client0] NoBody False]\<rparr>)"
  by (simp add: list_drives_def bind_io_def ensure_token_cached send_def raise_for_status_def
      json_def ret_def friendly_server_def ok_response_def is_success_def opt_param_def
      client0_def auth_header_def mk_request_def)

section \<open>The upload loop\<close>

lemma upload_step_eq:
  assumes "map_of session ''uploadUrl'' = Some (PStr u)"
  shows "upload_step srv session data S start c =
           (if accepted (srv (length (calls c)) (step_request u data S start)) then Inr ()
            else Inl (reply_error (srv (length (calls c)) (step_request u data S start))),
            c\<lparr>calls := calls c @ [step_request u data S start]\<rparr>)"
  using assms
  by (cases "srv (length (calls c)) (step_request u data S start)")
     (simp_all add: upload_step_def upload_chunk_def bind_io_def send_def step_request_def
        raise_for_status_def ret_def raise_def Let_def)

lemma upload_step_no_url:
  assumes "\<forall>u. map_of session ''uploadUrl'' \<noteq> Some (PStr u)"
  shows "\<exists>e. upload_step srv session data S start c = (Inl e, c)"
proof (cases "map_of session ''uploadUrl''")
  case None
  then show ?thesis by (simp add: upload_step_def raise_def Let_def)
next
  case (Some v)
  with assms have "\<forall>u. v \<noteq> PStr u" by simp
  then show ?thesis using Some
    by (cases v) (simp_all add: upload_step_def upload_chunk_def raise_def Let_def)
qed

lemma upload_chunks_done:
  "\<not> start < S \<Longrightarrow> upload_chunks srv session data S start c = (Inr (), c)"
  by (subst upload_chunks.simps) simp

lemma upload_chunks_no_url:
  assumes "\<forall>u. map_of session ''uploadUrl'' \<noteq> Some (PStr u)" "start < S"
  shows "\<exists>e. upload_chunks srv session data S start c = (Inl e, c)"
proof -
  from upload_step_no_url[OF assms(1)] obtain e
    where "upload_step srv session data S start c = (Inl e, c)" by blast
  then have "upload_chunks srv session data S start c = (Inl e, c)"
    using assms(2) by (subst upload_chunks.simps) simp
  then show ?thesis by blast
qed

lemma upload_chunks_fail:
  assumes "map_of session ''uploadUrl'' = Some (PStr u)" "start < S"
      and "\<not> accepted (srv (length (calls c)) (step_request u data S start))"
  shows "upload_chunks srv session data S start c =
           (Inl (reply_error (srv (length (calls c)) (step_request u data S start))),
            c\<lparr>calls := calls c @ [step_request u data S start]\<rparr>)"
  using assms by (subst upload_chunks.simps) (simp add: upload_step_eq)

lemma upload_chunks_next:
  assumes "map_of session ''uploadUrl'' = Some (PStr u)" "start < S"
      and "accepted (srv (length (calls c)) (step_request u data S start))"
  shows "upload_chunks srv session data S start c =
           upload_chunks srv session data S (start + chunk_size)
             (c\<lparr>calls := calls c @ [step_request u data S start]\<rparr>)"
  using assms by (subst upload_chunks.simps) (simp add: upload_step_eq)

lemma remaining_Suc:
  assumes "start < S" "0 < C"
  shows "(S - start + C - 1) div C = Suc ((S - (start + C) + C - 1) div C)"
proof -
  define k where "k = S - start - 1"
  have lhs: "S - start + C - 1 = k + C" using assms by (simp add: k_def)
  have l: "(S - start + C - 1) div C = Suc (k div C)"
    unfolding lhs using assms(2) div_add_self2[of C k] by auto
  have r: "(S - (start + C) + C - 1) div C = k div C"
  proof (cases "start + C \<le> S")
    case True
    then have "S - (start + C) + C - 1 = k" using assms by (simp add: k_def)
    then show ?thesis by (simp only:)
  next
    case False
    then have "S - (start + C) + C - 1 = C - 1" by simp
    moreover have "k < C" using False assms by (simp add: k_def)
    ultimately show ?thesis using assms(2) by simp
  qed
  show ?thesis unfolding l r ..
qed

lemma upload_chunks_trace:
  assumes "map_of session ''uploadUrl'' = Some (PStr u)"
      and "upload_chunks srv session data S start c = (r, c')"
  shows "\<exists>m. m \<le> (S - start + chunk_size - 1) div chunk_size
           \<and> c' = c\<lparr>calls := calls c
                     @ map (\<lambda>j. step_request u data S (start + j * chunk_size)) [0..<m]\<rparr>
           \<and> (\<forall>j. Suc j < m \<longrightarrow>
                 accepted (srv (length (calls c) + j)
                             (step_request u data S (start + j * chunk_size))))
           \<and> (case r of
                Inr _ \<Rightarrow> m = (S - start + chunk_size - 1) div chunk_size
                        \<and> (\<forall>j<m. accepted (srv (length (calls c) + j)
                                      (step_request u data S (start + j * chunk_size))))
              | Inl e \<Rightarrow> 0 < m
                        \<and> \<not> accepted (srv (length (calls c) + (m - 1))
                                        (step_request u data S (start + (m - 1) * chunk_size)))
                        \<and> e = reply_error (srv (length (calls c) + (m - 1))
                                        (step_request u data S (start + (m - 1) * chunk_size))))"
  using assms
proof (induction srv session data S start c arbitrary: r c' rule: upload_chunks.induct)
  case (1 srv session data S start c)
  note upurl = "1.prems"(1) and result = "1.prems"(2)
  let ?rq = "\<lambda>s. step_request u data S s"
  let ?n = "length (calls c)"
  have C: "0 < chunk_size" by (simp add: chunk_size_def)
  show ?case
  proof (cases "start < S")
    case False
    have "(r, c') = (Inr (), c)"
      unfolding result[symmetric] by (rule upload_chunks_done[OF False])
    then have rc: "r = Inr ()" "c' = c" by simp_all
    have zero: "(S - start + chunk_size - 1) div chunk_size = 0" using False C by simp
    show ?thesis unfolding rc zero by (intro exI[of _ 0]) simp
  next
    case True
    show ?thesis
    proof (cases "accepted (srv ?n (?rq start))")
      case False
      have "(r, c') = (Inl (reply_error (srv ?n (?rq start))),
                       c\<lparr>calls := calls c @ [?rq start]\<rparr>)"
        unfolding result[symmetric]
        by (rule upload_chunks_fail[where srv=srv and c=c, OF upurl True False])
      then have rc: "r = Inl (reply_error (srv ?n (?rq start)))"
        "c' = c\<lparr>calls := calls c @ [?rq start]\<rparr>"
        by simp_all
      have one: "1 \<le> (S - start + chunk_size - 1) div chunk_size"
        using remaining_Suc[OF True C] by simp
      show ?thesis unfolding rc using False one by (intro exI[of _ 1]) simp
    next
      case acc: True
      let ?c1 = "c\<lparr>calls := calls c @ [?rq start]\<rparr>"
      have step: "upload_step srv session data S start c = (Inr (), ?c1)"
        using acc upurl by (simp add: upload_step_eq)
      have run: "upload_chunks srv session data S (start + chunk_size) ?c1 = (r, c')"
        unfolding result[symmetric]
        by (rule upload_chunks_next[where srv=srv and c=c, OF upurl True acc, symmetric])
      from "1.IH"[OF True step[symmetric] refl upurl run]
      obtain m where m: "m \<le> (S - (start + chunk_size) + chunk_size - 1) div chunk_size"
        and c': "c' = ?c1\<lparr>calls := calls ?c1
                     @ map (\<lambda>j. ?rq (start + chunk_size + j * chunk_size)) [0..<m]\<rparr>"
        and mid: "\<forall>j. Suc j < m \<longrightarrow>
                 accepted (srv (length (calls ?c1) + j)
                   (?rq (start + chunk_size + j * chunk_size)))"
        and fin: "(case r of
                Inr _ \<Rightarrow> m = (S - (start + chunk_size) + chunk_size - 1) div chunk_size
                        \<and> (\<forall>j<m. accepted (srv (length (calls ?c1) + j)
                                      (?rq (start + chunk_size + j * chunk_size))))
              | Inl e \<Rightarrow> 0 < m
                        \<and> \<not> accepted (srv (length (calls ?c1) + (m - 1))
                                        (?rq (start + chunk_size + (m - 1) * chunk_size)))
                        \<and> e = reply_error (srv (length (calls ?c1) + (m - 1))
                                        (?rq (start + chunk_size + (m - 1) * chunk_size))))"
        by blast
      have shift: "\<And>j. start + chunk_size + j * chunk_size = start + Suc j * chunk_size"
        by simp
      have len1: "\<And>j. length (calls ?c1) + j = ?n + Suc j" by simp
      have rem: "(S - start + chunk_size - 1) div chunk_size
                 = Suc ((S - (start + chunk_size) + chunk_size - 1) div chunk_size)"
        by (rule remaining_Suc[OF True C])
      have A: "Suc m \<le> (S - start + chunk_size - 1) div chunk_size" using m rem by simp
      have B: "c' = c\<lparr>calls := calls c
                  @ map (\<lambda>j. ?rq (start + j * chunk_size)) [0..<Suc m]\<rparr>"
        unfolding c' shift by (simp add: map_upt_Suc del: upt_Suc)
      have later: "accepted (srv (?n + Suc i) (?rq (start + Suc i * chunk_size)))"
        if "accepted (srv (length (calls ?c1) + i) (?rq (start + chunk_size + i * chunk_size)))"
        for i
        using that unfolding shift len1 .
      have Cc: "\<forall>j. Suc j < Suc m \<longrightarrow> accepted (srv (?n + j) (?rq (start + j * chunk_size)))"
      proof (intro allI impI)
        fix j assume j: "Suc j < Suc m"
        show "accepted (srv (?n + j) (?rq (start + j * chunk_size)))"
        proof (cases j)
          case 0 then show ?thesis using acc by simp
        next
          case (Suc i)
          then have "Suc i < m" using j by simp
          with mid have "accepted (srv (length (calls ?c1) + i)
                           (?rq (start + chunk_size + i * chunk_size)))"
            by blast
          then show ?thesis unfolding Suc by (rule later)
        qed
      qed
      have D: "(case r of
                Inr _ \<Rightarrow> Suc m = (S - start + chunk_size - 1) div chunk_size
                        \<and> (\<forall>j<Suc m. accepted (srv (?n + j) (?rq (start + j * chunk_size))))
              | Inl e \<Rightarrow> 0 < Suc m
                        \<and> \<not> accepted (srv (?n + (Suc m - 1))
                                        (?rq (start + (Suc m - 1) * chunk_size)))
                        \<and> e = reply_error (srv (?n + (Suc m - 1))
                                        (?rq (start + (Suc m - 1) * chunk_size))))"
      proof (cases r)
        case (Inr x)
        have fin': "m = (S - (start + chunk_size) + chunk_size - 1) div chunk_size
           \<and> (\<forall>j<m. accepted (srv (length (calls ?c1) + j)
                        (?rq (start + chunk_size + j * chunk_size))))"
          using fin[unfolded Inr sum.case] by blast
        have "\<forall>j<Suc m. accepted (srv (?n + j) (?rq (start + j * chunk_size)))"
        proof (intro allI impI)
          fix j assume j: "j < Suc m"
          show "accepted (srv (?n + j) (?rq (start + j * chunk_size)))"
          proof (cases j)
            case 0 then show ?thesis using acc by simp
          next
            case (Suc i)
            then have "i < m" using j by simp
            with fin' have "accepted (srv (length (calls ?c1) + i)
                             (?rq (start + chunk_size + i * chunk_size)))"
              by blast
            then show ?thesis unfolding Suc by (rule later)
          qed
        qed
        moreover have "Suc m = (S - start + chunk_size - 1) div chunk_size"
          using fin' rem by simp
        ultimately show ?thesis unfolding Inr sum.case by blast
      next
        case (Inl e)
        have fin': "0 < m
          \<and> \<not> accepted (srv (length (calls ?c1) + (m - 1))
                (?rq (start + chunk_size + (m - 1) * chunk_size)))
          \<and> e = reply_error (srv (length (calls ?c1) + (m - 1))
                (?rq (start + chunk_size + (m - 1) * chunk_size)))"
          using fin[unfolded Inl sum.case] by blast
        have pos: "0 < m" using fin' by (rule conjunct1)
        have idx: "length (calls ?c1) + (m - 1) = ?n + (Suc m - 1)" using pos by simp
        have off: "start + chunk_size + (m - 1) * chunk_size = start + (Suc m - 1) * chunk_size"
          using pos by (cases m) simp_all
        have "\<not> accepted (srv (?n + (Suc m - 1)) (?rq (start + (Suc m - 1) * chunk_size)))
          \<and> e = reply_error (srv (?n + (Suc m - 1)) (?rq (start + (Suc m - 1) * chunk_size)))"
          using fin'[THEN conjunct2] unfolding idx off .
        then show ?thesis unfolding Inl sum.case by blast
      qed
      show ?thesis using A B Cc D by (intro exI[of _ "Suc m"]) blast
    qed
  qed
qed

section \<open>Attachments: the session strategy\<close>

lemma ensure_token_calls:
  assumes "ensure_token srv c = (r, c1)"
  shows "calls c1 = calls c \<or> calls c1 = calls c @ [token_request c]"
proof (cases "truthy (token c)")
  case True
  then show ?thesis using assms by (simp add: ensure_token_cached)
next
  case False
  obtain r0 c0 where g: "get_token srv c = (r0, c0)" by (cases "get_token srv c") auto
  have "calls c0 = calls c @ [token_request c]"
    using g by (auto simp: get_token_eval Let_def split: reply.splits option.splits if_splits)
  moreover have "c1 = c0"
    using assms False g by (cases r0) (simp_all add: ensure_token_def bind_io_def ret_def)
  ultimately show ?thesis by simp
qed

lemma send_and_parse_calls:
  assumes "bind_io (send srv rq)
             (\<lambda>response. bind_io (raise_for_status response) (\<lambda>_. json response)) c0
           = (r, c1)"
  shows "c1 = c0\<lparr>calls := calls c0 @ [rq]\<rparr>"
  using assms
  by (auto simp: bind_io_def send_def raise_for_status_def json_def ret_def raise_def Let_def
      split: reply.splits option.splits if_splits)

lemma create_upload_session_calls:
  assumes "create_upload_session srv message_id name sz user_id is_inline c = (r, c1)"
  shows "\<exists>pre. calls c1 = calls c @ pre \<and> list_all (\<lambda>rq. meth rq = POST) pre"
proof -
  obtain r0 c0 where e: "ensure_token srv c = (r0, c0)" by (cases "ensure_token srv c") auto
  from ensure_token_calls[OF e]
  have c0: "calls c0 = calls c @ [] \<or> calls c0 = calls c @ [token_request c]" by simp
  show ?thesis
  proof (cases r0)
    case (Inl err)
    then have "c1 = c0" using assms e by (simp add: create_upload_session_def bind_io_def)
    then show ?thesis using c0 by (auto simp: token_request_def)
  next
    case (Inr x)
    let ?rq = "upload_session_request c0 message_id name sz user_id is_inline"
    have "bind_io (send srv ?rq)
             (\<lambda>response. bind_io (raise_for_status response) (\<lambda>_. json response)) c0
           = (r, c1)"
      using assms e Inr by (simp add: create_upload_session_def bind_io_def)
    from send_and_parse_calls[OF this] have "calls c1 = calls c0 @ [?rq]" by simp
    moreover have "meth ?rq = POST" by (simp add: upload_session_request_def)
    ultimately show ?thesis using c0 by (auto simp: token_request_def)
  qed
qed

lemma session_strategy_unfold:
  assumes "(file_path = None \<and> content = Some data \<and> file_name = Some name)
           \<or> (file_path = Some p \<and> p \<noteq> [] \<and> content = None \<and> file_name = None
               \<and> fs p = Some data)"
      and "threshold < length data" "length data \<le> cap"
  shows "\<exists>nm. add_attachment srv fs guess_type message_id file_path content file_name user_id
           is_inline content_type c
         = bind_io (create_upload_session srv message_id nm (length data) user_id is_inline)
             (\<lambda>session. bind_io (upload_chunks srv session data (length data) 0)
                (\<lambda>_. ret session)) c"
  using assms
  by (auto simp: add_attachment_def threshold_def cap_def bind_io_ret)

lemma upload_chunks_trace0:
  assumes "map_of session ''uploadUrl'' = Some (PStr u)"
      and "upload_chunks srv session data S 0 c = (r, c')"
  shows "\<exists>m. m \<le> num_chunks S chunk_size
           \<and> c' = c\<lparr>calls := calls c
                     @ map (\<lambda>j. step_request u data S (j * chunk_size)) [0..<m]\<rparr>
           \<and> (\<forall>j. Suc j < m \<longrightarrow>
                 accepted (srv (length (calls c) + j) (step_request u data S (j * chunk_size))))
           \<and> (\<forall>x. r = Inr x \<longrightarrow> m = num_chunks S chunk_size
                 \<and> (\<forall>j<m. accepted (srv (length (calls c) + j)
                                  (step_request u data S (j * chunk_size)))))
           \<and> (\<forall>e. r = Inl e \<longrightarrow> 0 < m
                 \<and> \<not> accepted (srv (length (calls c) + (m - 1))
                                 (step_request u data S ((m - 1) * chunk_size)))
                 \<and> e = reply_error (srv (length (calls c) + (m - 1))
                                 (step_request u data S ((m - 1) * chunk_size))))"
proof -
  note tr = upload_chunks_trace[OF assms, unfolded add.left_neutral diff_zero,
      folded num_chunks_def]
  from tr obtain m where
    a: "m \<le> num_chunks S chunk_size"
    and b: "c' = c\<lparr>calls := calls c
                     @ map (\<lambda>j. step_request u data S (j * chunk_size)) [0..<m]\<rparr>"
    and d: "\<forall>j. Suc j < m \<longrightarrow>
                 accepted (srv (length (calls c) + j) (step_request u data S (j * chunk_size)))"
    and f: "(case r of
                Inr _ \<Rightarrow> m = num_chunks S chunk_size
                        \<and> (\<forall>j<m. accepted (srv (length (calls c) + j)
                                      (step_request u data S (j * chunk_size))))
              | Inl e \<Rightarrow> 0 < m
                        \<and> \<not> accepted (srv (length (calls c) + (m - 1))
                                        (step_request u data S ((m - 1) * chunk_size)))
                        \<and> e = reply_error (srv (length (calls c) + (m - 1))
                                        (step_request u data S ((m - 1) * chunk_size))))"
    by blast
  have fr: "m = num_chunks S chunk_size
            \<and> (\<forall>j<m. accepted (srv (length (calls c) + j)
                             (step_request u data S (j * chunk_size))))"
    if "r = Inr x" for x
    using f unfolding that sum.case .
  have fl: "0 < m
            \<and> \<not> accepted (srv (length (calls c) + (m - 1))
                            (step_request u data S ((m - 1) * chunk_size)))
            \<and> e = reply_error (srv (length (calls c) + (m - 1))
                            (step_request u data S ((m - 1) * chunk_size)))"
    if "r = Inl e" for e
    using f unfolding that sum.case .
  show ?thesis
  proof (intro exI[of _ m] conjI)
    show "m \<le> num_chunks S chunk_size" by (rule a)
    show "c' = c\<lparr>calls := calls c
                     @ map (\<lambda>j. step_request u data S (j * chunk_size)) [0..<m]\<rparr>"
      by (rule b)
    show "\<forall>j. Suc j < m \<longrightarrow>
                 accepted (srv (length (calls c) + j) (step_request u data S (j * chunk_size)))"
      by (rule d)
    show "\<forall>x. r = Inr x \<longrightarrow> m = num_chunks S chunk_size
                 \<and> (\<forall>j<m. accepted (srv (length (calls c) + j)
                                  (step_request u data S (j * chunk_size))))"
      using fr by (intro allI impI)
    show "\<forall>e. r = Inl e \<longrightarrow> 0 < m
                 \<and> \<not> accepted (srv (length (calls c) + (m - 1))
                                 (step_request u data S ((m - 1) * chunk_size)))
                 \<and> e = reply_error (srv (length (calls c) + (m - 1))
                                 (step_request u data S ((m - 1) * chunk_size)))"
      using fl by (intro allI impI)
  qed
qed

text \<open>
  Claim C4.  In a session-strategy transfer (a payload above 3 MiB and at most 150 MiB),
  the requests that \<^verbatim>\<open>add_attachment\<close> adds to the log are: some POST requests (the
  token exchange if no token was cached, then the negotiation), followed by the chunk
  uploads at the offsets \<open>0, C, 2C, ...\<close> in this order, each once, with \<open>m\<close> of them
  sent.  Every chunk before the last one sent was accepted (answered with a 2xx status):
  a chunk is sent only after the one before it has completed successfully.  A chunk that
  is not accepted is the last request sent, and the call raises the error of that very
  answer; the call returns only when all \<open>ceil(S / C)\<close> chunks were sent and accepted.
\<close>

theorem add_attachment_chunks_sequential:
  assumes "(file_path = None \<and> content = Some data \<and> file_name = Some name)
           \<or> (file_path = Some p \<and> p \<noteq> [] \<and> content = None \<and> file_name = None
               \<and> fs p = Some data)"
      and "threshold < length data" "length data \<le> cap"
      and "add_attachment srv fs guess_type message_id file_path content file_name user_id
             is_inline content_type c = (res, c')"
  shows "\<exists>pre m u.
           calls c' = calls c @ pre
              @ map (\<lambda>j. step_request u data (length data) (j * chunk_size)) [0..<m]
         \<and> list_all (\<lambda>rq. meth rq = POST) pre
         \<and> m \<le> num_chunks (length data) chunk_size
         \<and> (\<forall>j. Suc j < m \<longrightarrow>
               accepted (srv (length (calls c) + length pre + j)
                           (step_request u data (length data) (j * chunk_size))))
         \<and> (\<forall>j<m. \<not> accepted (srv (length (calls c) + length pre + j)
                                  (step_request u data (length data) (j * chunk_size)))
               \<longrightarrow> Suc j = m
                   \<and> res = Inl (reply_error (srv (length (calls c) + length pre + j)
                                   (step_request u data (length data) (j * chunk_size)))))
         \<and> (\<forall>session. res = Inr session \<longrightarrow>
               m = num_chunks (length data) chunk_size
               \<and> (\<forall>j<m. accepted (srv (length (calls c) + length pre + j)
                                 (step_request u data (length data) (j * chunk_size)))))"
proof -
  let ?S = "length data"
  from session_strategy_unfold[where fs = fs and p = p and name = name, OF assms(1-3)]
  obtain nm where
    unf: "add_attachment srv fs guess_type message_id file_path content file_name user_id
           is_inline content_type c
         = bind_io (create_upload_session srv message_id nm ?S user_id is_inline)
             (\<lambda>session. bind_io (upload_chunks srv session data ?S 0)
                (\<lambda>_. ret session)) c"
    by blast
  obtain r1 c1 where neg: "create_upload_session srv message_id nm ?S user_id is_inline c
                           = (r1, c1)"
    by (cases "create_upload_session srv message_id nm ?S user_id is_inline c") auto
  from create_upload_session_calls[OF neg] obtain pre where
    pre: "calls c1 = calls c @ pre" "list_all (\<lambda>rq. meth rq = POST) pre" by blast
  have base: "length (calls c) + length pre = length (calls c1)" using pre(1) by simp
  have pos: "0 < ?S" using assms(2) by linarith
  show ?thesis
  proof (cases r1)
    case (Inl e)
    then have "res = Inl e" "c' = c1"
      using assms(4) unf neg by (simp_all add: bind_io_def)
    then show ?thesis using pre
      by (intro exI[of _ pre] exI[of _ 0] exI[of _ "[]"]) simp
  next
    case (Inr session)
    obtain r2 c2 where up: "upload_chunks srv session data ?S 0 c1 = (r2, c2)"
      by (cases "upload_chunks srv session data ?S 0 c1") auto
    have res: "res = (case r2 of Inl e \<Rightarrow> Inl e | Inr _ \<Rightarrow> Inr session)" and c': "c' = c2"
      using assms(4) unf neg Inr up by (cases r2; simp add: bind_io_def ret_def)+
    show ?thesis
    proof (cases "\<exists>u. map_of session ''uploadUrl'' = Some (PStr u)")
      case False
      then have "\<forall>u. map_of session ''uploadUrl'' \<noteq> Some (PStr u)" by blast
      from upload_chunks_no_url[OF this pos, of srv data c1] up
      obtain e where "r2 = Inl e" "c2 = c1" by auto
      then have "res = Inl e" "c' = c1" using res c' by simp_all
      then show ?thesis using pre
        by (intro exI[of _ pre] exI[of _ 0] exI[of _ "[]"]) simp
    next
      case True
      then obtain u where u: "map_of session ''uploadUrl'' = Some (PStr u)" by blast
      let ?rq = "\<lambda>j. step_request u data ?S (j * chunk_size)"
      from upload_chunks_trace0[OF u up] obtain m where
        m: "m \<le> num_chunks ?S chunk_size"
        and c2: "c2 = c1\<lparr>calls := calls c1 @ map ?rq [0..<m]\<rparr>"
        and mid: "\<forall>j. Suc j < m \<longrightarrow> accepted (srv (length (calls c1) + j) (?rq j))"
        and fin_r: "\<forall>x. r2 = Inr x \<longrightarrow> m = num_chunks ?S chunk_size
                        \<and> (\<forall>j<m. accepted (srv (length (calls c1) + j) (?rq j)))"
        and fin_l: "\<forall>e. r2 = Inl e \<longrightarrow> 0 < m
                        \<and> \<not> accepted (srv (length (calls c1) + (m - 1)) (?rq (m - 1)))
                        \<and> e = reply_error (srv (length (calls c1) + (m - 1)) (?rq (m - 1)))"
        by blast
      have A: "calls c' = calls c @ pre @ map ?rq [0..<m]"
        using c' c2 pre(1) by simp
      have E: "\<forall>j<m. \<not> accepted (srv (length (calls c1) + j) (?rq j))
               \<longrightarrow> Suc j = m \<and> res = Inl (reply_error (srv (length (calls c1) + j) (?rq j)))"
      proof (intro allI impI)
        fix j assume j: "j < m" and bad: "\<not> accepted (srv (length (calls c1) + j) (?rq j))"
        have last: "Suc j = m"
        proof (rule ccontr)
          assume "Suc j \<noteq> m"
          with j have "Suc j < m" by simp
          with mid bad show False by blast
        qed
        then have j_eq: "m - 1 = j" by simp
        show "Suc j = m \<and> res = Inl (reply_error (srv (length (calls c1) + j) (?rq j)))"
        proof (cases r2)
          case (Inr x)
          with fin_r j bad show ?thesis by blast
        next
          case (Inl e)
          with fin_l have "e = reply_error (srv (length (calls c1) + (m - 1)) (?rq (m - 1)))"
            by blast
          then show ?thesis using last res Inl unfolding j_eq by simp
        qed
      qed
      have F: "\<forall>s. res = Inr s \<longrightarrow> m = num_chunks ?S chunk_size
                 \<and> (\<forall>j<m. accepted (srv (length (calls c1) + j) (?rq j)))"
      proof (intro allI impI)
        fix s assume "res = Inr s"
        then obtain x where "r2 = Inr x" using res by (cases r2) simp_all
        with fin_r show "m = num_chunks ?S chunk_size
                 \<and> (\<forall>j<m. accepted (srv (length (calls c1) + j) (?rq j)))"
          by blast
      qed
      let ?k = "length (calls c) + length pre"
      show ?thesis
      proof (intro exI[of _ pre] exI[of _ m] exI[of _ u] conjI)
        show "calls c' = calls c @ pre @ map ?rq [0..<m]" by (rule A)
        show "list_all (\<lambda>rq. meth rq = POST) pre" by (rule pre(2))
        show "m \<le> num_chunks ?S chunk_size" by (rule m)
        show "\<forall>j. Suc j < m \<longrightarrow> accepted (srv (?k + j) (?rq j))"
          unfolding base by (rule mid)
        show "\<forall>j<m. \<not> accepted (srv (?k + j) (?rq j))
               \<longrightarrow> Suc j = m \<and> res = Inl (reply_error (srv (?k + j) (?rq j)))"
          unfolding base by (rule E)
        show "\<forall>s. res = Inr s \<longrightarrow> m = num_chunks ?S chunk_size
                 \<and> (\<forall>j<m. accepted (srv (?k + j) (?rq j)))"
          unfolding base by (rule F)
      qed
    qed
  qed
qed

lemma create_upload_session_ok:
  assumes "truthy (token c)"
      and "srv (length (calls c)) (upload_session_request c message_id name sz user_id is_inline)
           = Reply r"
      and "is_success r" "json_body r = Some d"
  shows "create_upload_session srv message_id name sz user_id is_inline c
         = (Inr d, c\<lparr>calls := calls c
                        @ [upload_session_request c message_id name sz user_id is_inline]\<rparr>)"
  using assms
  by (simp add: create_upload_session_def bind_io_def ensure_token_cached send_def
      raise_for_status_def json_def ret_def)

lemma flaky_run:
  "add_attachment flaky_server no_files no_guess ''msg'' None (Some ten_mib) (Some ''a.bin'')
     (Some ''user'') False None client0
   = (Inl (HTTPStatusError (status_response 503)),
      client0\<lparr>calls :=
        [upload_session_request client0 ''msg'' ''a.bin'' (length ten_mib) (Some ''user'') False,
         step_request ''https://upload.example/session'' ten_mib (length ten_mib) 0,
         step_request ''https://upload.example/session'' ten_mib (length ten_mib)
           chunk_size]\<rparr>)"
proof -
  let ?S = "length ten_mib"
  let ?u = "''https://upload.example/session''"
  let ?q0 = "upload_session_request client0 ''msg'' ''a.bin'' ?S (Some ''user'') False"
  let ?c1 = "client0\<lparr>calls := [?q0]\<rparr>"
  let ?c2 = "client0\<lparr>calls := [?q0, step_request ?u ten_mib ?S 0]\<rparr>"
  let ?c3 = "client0\<lparr>calls := [?q0, step_request ?u ten_mib ?S 0,
                                   step_request ?u ten_mib ?S chunk_size]\<rparr>"
  have len: "?S = 10485760" by (simp add: ten_mib_def)
  have upurl: "map_of sample_session ''uploadUrl'' = Some (PStr ?u)"
    by (simp add: sample_session_def)
  have neg: "create_upload_session flaky_server ''msg'' ''a.bin'' ?S (Some ''user'') False client0
             = (Inr sample_session, ?c1)"
    using create_upload_session_ok[of client0 flaky_server "''msg''" "''a.bin''" ?S
        "Some ''user''" False "ok_response sample_session" sample_session]
    by (simp add: client0_def flaky_server_def friendly_server_def sample_session_def
        ok_response_def is_success_def)
  have k0: "upload_chunks flaky_server sample_session ten_mib ?S 0 ?c1
            = upload_chunks flaky_server sample_session ten_mib ?S chunk_size ?c2"
    using upload_chunks_next[of sample_session ?u 0 ?S flaky_server ?c1 ten_mib] upurl
    by (simp add: len flaky_server_def friendly_server_def ok_response_def is_success_def)
  have k1: "upload_chunks flaky_server sample_session ten_mib ?S chunk_size ?c2
            = (Inl (HTTPStatusError (status_response 503)), ?c3)"
    using upload_chunks_fail[of sample_session ?u chunk_size ?S flaky_server ?c2 ten_mib] upurl
    by (simp add: len flaky_server_def status_response_def is_success_def chunk_size_def)
  have unf: "add_attachment flaky_server no_files no_guess ''msg'' None (Some ten_mib)
       (Some ''a.bin'') (Some ''user'') False None client0
     = bind_io (create_upload_session flaky_server ''msg'' ''a.bin'' ?S (Some ''user'') False)
             (\<lambda>session. bind_io (upload_chunks flaky_server session ten_mib ?S 0)
                (\<lambda>_. ret session)) client0"
    by (simp add: add_attachment_def bind_io_ret len)
  show ?thesis
    unfolding unf by (simp add: bind_io_def neg k0 k1)
qed

theorem add_attachment_chunks_sequential_witness:
  "(\<exists>pre m u.
           calls (client0\<lparr>calls :=
        [upload_session_request client0 ''msg'' ''a.bin'' (length ten_mib) (Some ''user'') False,
         step_request ''https://upload.example/session'' ten_mib (length ten_mib) 0,
         step_request ''https://upload.example/session'' ten_mib (length ten_mib)
           chunk_size]\<rparr>) = calls client0 @ pre
              @ map (\<lambda>j. step_request u ten_mib (length ten_mib) (j * chunk_size)) [0..<m]
         \<and> list_all (\<lambda>rq. meth rq = POST) pre
         \<and> m \<le> num_chunks (length ten_mib) chunk_size
         \<and> (\<forall>j. Suc j < m \<longrightarrow>
               accepted (flaky_server (length (calls client0) + length pre + j)
                           (step_request u ten_mib (length ten_mib) (j * chunk_size))))
         \<and> (\<forall>j<m. \<not> accepted (flaky_server (length (calls client0) + length pre + j)
                                  (step_request u ten_mib (length ten_mib) (j * chunk_size)))
               \<longrightarrow> Suc j = m
                   \<and> (Inl (HTTPStatusError (status_response 503)) :: error + pydict)
                     = Inl (reply_error (flaky_server (length (calls client0) + length pre + j)
                                   (step_request u ten_mib (length ten_mib) (j * chunk_size)))))
         \<and> (\<forall>session. (Inl (HTTPStatusError (status_response 503)) :: error + pydict) = Inr session \<longrightarrow>
               m = num_chunks (length ten_mib) chunk_size
               \<and> (\<forall>j<m. accepted (flaky_server (length (calls client0) + length pre + j)
                                 (step_request u ten_mib (length ten_mib) (j * chunk_size))))))
   \<and> add_attachment flaky_server no_files no_guess ''msg'' None (Some ten_mib) (Some ''a.bin'')
       (Some ''user'') False None client0
     = (Inl (HTTPStatusError (status_response 503)),
        (client0\<lparr>calls :=
        [upload_session_request client0 ''msg'' ''a.bin'' (length ten_mib) (Some ''user'') False,
         step_request ''https://upload.example/session'' ten_mib (length ten_mib) 0,
         step_request ''https://upload.example/session'' ten_mib (length ten_mib)
           chunk_size]\<rparr>))"
proof -
  have pay: "((None :: string option) = None \<and> Some ten_mib = Some ten_mib
               \<and> Some ''a.bin'' = Some ''a.bin'')
           \<or> ((None :: string option) = Some [] \<and> [] \<noteq> ([] :: string)
               \<and> Some ten_mib = None \<and> Some ''a.bin'' = None
               \<and> no_files [] = Some ten_mib)"
    by simp
  have lo: "threshold < length ten_mib" by (simp add: threshold_def ten_mib_def)
  have hi: "length ten_mib \<le> cap" by (simp add: cap_def ten_mib_def)
  note inst = add_attachment_chunks_sequential[OF pay lo hi flaky_run]
  show ?thesis
  proof (rule conjI)
    show "add_attachment flaky_server no_files no_guess ''msg'' None (Some ten_mib)
            (Some ''a.bin'') (Some ''user'') False None client0
          = (Inl (HTTPStatusError (status_response 503)),
             client0\<lparr>calls :=
        [upload_session_request client0 ''msg'' ''a.bin'' (length ten_mib) (Some ''user'') False,
         step_request ''https://upload.example/session'' ten_mib (length ten_mib) 0,
         step_request ''https://upload.example/session'' ten_mib (length ten_mib)
           chunk_size]\<rparr>)"
      by (rule flaky_run)
  qed (rule inst)
qed

section \<open>Attachments: chunk ranges\<close>

lemma chunk_index_in_range:
  assumes "i < num_chunks S C" "0 < C"
  shows "i * C < S"
proof -
  have "Suc i \<le> (S + C - 1) div C" using assms(1) by (simp add: num_chunks_def)
  then have "Suc i * C \<le> S + C - 1"
    using assms(2) by (simp add: less_eq_div_iff_mult_less_eq)
  then show ?thesis using assms(2) by simp
qed

lemma num_chunks_cover:
  assumes "0 < C"
  shows "S \<le> num_chunks S C * C"
proof -
  have "\<not> Suc (num_chunks S C) \<le> (S + C - 1) div C" by (simp add: num_chunks_def)
  then have "\<not> Suc (num_chunks S C) * C \<le> S + C - 1"
    using assms by (simp add: less_eq_div_iff_mult_less_eq)
  then show ?thesis using assms by simp
qed

lemma num_chunks_pos: "0 < S \<Longrightarrow> 0 < C \<Longrightarrow> 0 < num_chunks S C"
  using num_chunks_cover[of C S] by (cases "num_chunks S C") simp_all

lemma step_request_chunk_range:
  assumes "i * chunk_size < length data"
  shows "step_request u data (length data) (i * chunk_size)
         = upload_chunk_request u (take chunk_size (drop (i * chunk_size) data))
             (fst (chunk_range (length data) chunk_size i))
             (snd (chunk_range (length data) chunk_size i)) (int (length data))"
proof -
  have g: "int s + int (min (S - s) C) - 1 = int (min (s + C) S) - 1" if "s < S" for s S C :: nat
    using that by (auto simp: min_def)
  have e: "(i + 1) * chunk_size = i * chunk_size + chunk_size" by simp
  have len: "length (take chunk_size (drop (i * chunk_size) data))
             = min (length data - i * chunk_size) chunk_size"
    by (simp add: min.commute)
  show ?thesis
    unfolding step_request_def chunk_range_def fst_conv snd_conv len e
    by (simp only: g[OF assms])
qed

lemma concat_chunks_take:
  "concat (map (\<lambda>i. take C (drop (i * C) xs)) [0..<n]) = take (n * C) xs"
proof (induction n)
  case 0
  then show ?case by simp
next
  case (Suc n)
  have "take (n * C) xs @ take C (drop (n * C) xs) = take (n * C + C) xs"
    by (simp add: take_add)
  then show ?case using Suc by (simp add: add.commute)
qed

lemma concat_chunks:
  assumes "0 < C"
  shows "concat (map (\<lambda>i. take C (drop (i * C) xs)) [0..<num_chunks (length xs) C]) = xs"
  using num_chunks_cover[OF assms, of "length xs"] by (simp add: concat_chunks_take)

lemma chunk_range_facts:
  assumes "0 < S" "0 < C"
  shows "fst (chunk_range S C 0) = 0"
    and "snd (chunk_range S C (num_chunks S C - 1)) = int S - 1"
    and "\<forall>i. Suc i < num_chunks S C \<longrightarrow>
             fst (chunk_range S C (Suc i)) = snd (chunk_range S C i) + 1"
    and "\<forall>i<num_chunks S C. fst (chunk_range S C i) \<le> snd (chunk_range S C i)"
proof -
  show "fst (chunk_range S C 0) = 0" by (simp add: chunk_range_def)
  have "num_chunks S C - 1 + 1 = num_chunks S C" using num_chunks_pos[OF assms] by simp
  then have "min ((num_chunks S C - 1 + 1) * C) S = S"
    using num_chunks_cover[OF assms(2), of S] by simp
  then show "snd (chunk_range S C (num_chunks S C - 1)) = int S - 1"
    by (simp add: chunk_range_def)
  show "\<forall>i. Suc i < num_chunks S C \<longrightarrow>
             fst (chunk_range S C (Suc i)) = snd (chunk_range S C i) + 1"
  proof (intro allI impI)
    fix i assume "Suc i < num_chunks S C"
    from chunk_index_in_range[OF this assms(2)] have "Suc i * C < S" .
    then have "min ((i + 1) * C) S = Suc i * C" by simp
    then show "fst (chunk_range S C (Suc i)) = snd (chunk_range S C i) + 1"
      by (simp add: chunk_range_def)
  qed
  show "\<forall>i<num_chunks S C. fst (chunk_range S C i) \<le> snd (chunk_range S C i)"
  proof (intro allI impI)
    fix i assume "i < num_chunks S C"
    from chunk_index_in_range[OF this assms(2)] have "i * C < S" .
    then have "i * C < min ((i + 1) * C) S" using assms(2) by (simp add: min_def)
    then have "int (i * C) < int (min ((i + 1) * C) S)" by linarith
    then show "fst (chunk_range S C i) \<le> snd (chunk_range S C i)"
      unfolding chunk_range_def fst_conv snd_conv by linarith
  qed
qed

lemma ten_mib_ranges:
  "map (chunk_range 10485760 chunk_size) [0..<num_chunks 10485760 chunk_size]
   = [(0, 4194303), (4194304, 8388607), (8388608, 10485759)]"
proof -
  have n: "num_chunks 10485760 chunk_size = 3" by (simp add: num_chunks_def chunk_size_def)
  have "[0..<3] = [0, 1, 2]" by (simp add: upt_rec)
  then show ?thesis unfolding n by (simp add: chunk_range_def chunk_size_def)
qed

lemma range_bytes:
  assumes "i * chunk_size < length data"
  shows "nat (snd (chunk_range (length data) chunk_size i)
              - fst (chunk_range (length data) chunk_size i) + 1)
         = length (take chunk_size (drop (i * chunk_size) data))"
    and "take (nat (snd (chunk_range (length data) chunk_size i)
                    - fst (chunk_range (length data) chunk_size i) + 1))
           (drop (nat (fst (chunk_range (length data) chunk_size i))) data)
         = take chunk_size (drop (i * chunk_size) data)"
proof -
  have g: "nat (int (min (s + C) S) - 1 - int s + 1) = min C (S - s)" if "s < S"
    for s S C :: nat
    using that by (auto simp: min_def)
  have e: "(i + 1) * chunk_size = i * chunk_size + chunk_size" by simp
  have n: "nat (snd (chunk_range (length data) chunk_size i)
              - fst (chunk_range (length data) chunk_size i) + 1)
           = min chunk_size (length data - i * chunk_size)"
    unfolding chunk_range_def fst_conv snd_conv e by (rule g[OF assms])
  show "nat (snd (chunk_range (length data) chunk_size i)
              - fst (chunk_range (length data) chunk_size i) + 1)
         = length (take chunk_size (drop (i * chunk_size) data))"
    unfolding n by (simp add: min.commute)
  have f: "nat (fst (chunk_range (length data) chunk_size i)) = i * chunk_size"
    unfolding chunk_range_def fst_conv by (rule nat_int)
  show "take (nat (snd (chunk_range (length data) chunk_size i)
                    - fst (chunk_range (length data) chunk_size i) + 1))
           (drop (nat (fst (chunk_range (length data) chunk_size i))) data)
         = take chunk_size (drop (i * chunk_size) data)"
    unfolding n f by (simp add: min_def)
qed

lemma step_request_range_request:
  assumes "i * chunk_size < length data"
  shows "step_request u data (length data) (i * chunk_size)
         = range_request u data (chunk_range (length data) chunk_size i)"
proof -
  let ?rg = "chunk_range (length data) chunk_size i"
  let ?chunk = "take chunk_size (drop (i * chunk_size) data)"
  have n: "nat (snd ?rg - fst ?rg + 1) = length ?chunk" by (rule range_bytes(1)[OF assms])
  have b: "take (nat (snd ?rg - fst ?rg + 1)) (drop (nat (fst ?rg)) data) = ?chunk"
    by (rule range_bytes(2)[OF assms])
  have "range_request u data ?rg
        = upload_chunk_request u ?chunk (fst ?rg) (snd ?rg) (int (length data))"
    unfolding range_request_def upload_chunk_request_def b unfolding n ..
  then show ?thesis unfolding step_request_chunk_range[OF assms] by (rule sym)
qed

lemma chunk_requests_range_requests:
  "map (\<lambda>j. step_request u data (length data) (j * chunk_size))
     [0..<num_chunks (length data) chunk_size]
   = map (\<lambda>i. range_request u data (chunk_range (length data) chunk_size i))
       [0..<num_chunks (length data) chunk_size]"
proof (rule map_cong[OF refl])
  fix i assume "i \<in> set [0..<num_chunks (length data) chunk_size]"
  then have "i < num_chunks (length data) chunk_size" by simp
  then have "i * chunk_size < length data"
    by (rule chunk_index_in_range) (simp add: chunk_size_def)
  then show "step_request u data (length data) (i * chunk_size)
             = range_request u data (chunk_range (length data) chunk_size i)"
    by (rule step_request_range_request)
qed

lemma concat_range_bytes:
  "concat (map (\<lambda>i. take (nat (snd (chunk_range (length data) chunk_size i)
                               - fst (chunk_range (length data) chunk_size i) + 1))
                      (drop (nat (fst (chunk_range (length data) chunk_size i))) data))
             [0..<num_chunks (length data) chunk_size]) = data"
proof -
  have "map (\<lambda>i. take (nat (snd (chunk_range (length data) chunk_size i)
                               - fst (chunk_range (length data) chunk_size i) + 1))
                      (drop (nat (fst (chunk_range (length data) chunk_size i))) data))
             [0..<num_chunks (length data) chunk_size]
        = map (\<lambda>i. take chunk_size (drop (i * chunk_size) data))
             [0..<num_chunks (length data) chunk_size]"
  proof (rule map_cong[OF refl])
    fix i assume "i \<in> set [0..<num_chunks (length data) chunk_size]"
    then have "i < num_chunks (length data) chunk_size" by simp
    then have "i * chunk_size < length data"
      by (rule chunk_index_in_range) (simp add: chunk_size_def)
    then show "take (nat (snd (chunk_range (length data) chunk_size i)
                               - fst (chunk_range (length data) chunk_size i) + 1))
                      (drop (nat (fst (chunk_range (length data) chunk_size i))) data)
               = take chunk_size (drop (i * chunk_size) data)"
      by (rule range_bytes(2))
  qed
  moreover have "0 < chunk_size" by (simp add: chunk_size_def)
  ultimately show ?thesis by (simp only: concat_chunks)
qed

lemma ensure_token_available:
  assumes "(truthy (token c) \<and> c1 = c)
           \<or> (\<not> truthy (token c)
               \<and> srv (length (calls c)) (token_request c) = Reply r0 \<and> is_success r0
               \<and> json_body r0 = Some d0 \<and> map_of d0 ''access_token'' = Some tok
               \<and> c1 = c\<lparr>calls := calls c @ [token_request c], token := tok\<rparr>)"
  shows "ensure_token srv c = (Inr (), c1)"
  using assms
proof
  assume "truthy (token c) \<and> c1 = c"
  then show ?thesis by (simp add: ensure_token_cached)
next
  assume a: "\<not> truthy (token c)
               \<and> srv (length (calls c)) (token_request c) = Reply r0 \<and> is_success r0
               \<and> json_body r0 = Some d0 \<and> map_of d0 ''access_token'' = Some tok
               \<and> c1 = c\<lparr>calls := calls c @ [token_request c], token := tok\<rparr>"
  then have "ensure_token srv c
         = (Inr (), c\<lparr>calls := calls c @ [token_request c],
                        token := dict_get d0 ''access_token'' PNone\<rparr>)"
    by (intro ensure_token_fresh[where r = r0 and d = d0]) (simp_all add: has_key_def)
  then show ?thesis using a by (simp add: dict_get_def)
qed

lemma create_upload_session_run:
  assumes "ensure_token srv c = (Inr (), c1)"
      and "srv (length (calls c1))
             (upload_session_request c1 message_id name sz user_id is_inline) = Reply r"
      and "is_success r" "json_body r = Some d"
  shows "create_upload_session srv message_id name sz user_id is_inline c
         = (Inr d, c1\<lparr>calls := calls c1
                        @ [upload_session_request c1 message_id name sz user_id is_inline]\<rparr>)"
  using assms
  by (simp add: create_upload_session_def bind_io_def send_def raise_for_status_def json_def
      ret_def)

lemma upload_chunks_accepted:
  assumes u: "map_of session ''uploadUrl'' = Some (PStr u)"
      and acc: "\<forall>j<num_chunks S chunk_size.
                  accepted (srv (length (calls c) + j) (step_request u data S (j * chunk_size)))"
  shows "upload_chunks srv session data S 0 c
         = (Inr (), c\<lparr>calls := calls c
                        @ map (\<lambda>j. step_request u data S (j * chunk_size))
                            [0..<num_chunks S chunk_size]\<rparr>)"
proof -
  obtain r c' where up: "upload_chunks srv session data S 0 c = (r, c')"
    by (cases "upload_chunks srv session data S 0 c") auto
  from upload_chunks_trace0[OF u up] obtain m where
    m: "m \<le> num_chunks S chunk_size"
    and c': "c' = c\<lparr>calls := calls c
                     @ map (\<lambda>j. step_request u data S (j * chunk_size)) [0..<m]\<rparr>"
    and fr: "\<forall>x. r = Inr x \<longrightarrow> m = num_chunks S chunk_size
                 \<and> (\<forall>j<m. accepted (srv (length (calls c) + j)
                                  (step_request u data S (j * chunk_size))))"
    and fl: "\<forall>e. r = Inl e \<longrightarrow> 0 < m
                 \<and> \<not> accepted (srv (length (calls c) + (m - 1))
                                 (step_request u data S ((m - 1) * chunk_size)))
                 \<and> e = reply_error (srv (length (calls c) + (m - 1))
                                 (step_request u data S ((m - 1) * chunk_size)))"
    by blast
  have ok: "r = Inr ()"
  proof (cases r)
    case (Inr x)
    then show ?thesis by simp
  next
    case (Inl e)
    with fl have pos: "0 < m"
      and bad: "\<not> accepted (srv (length (calls c) + (m - 1))
                              (step_request u data S ((m - 1) * chunk_size)))"
      by blast+
    from pos m have "m - 1 < num_chunks S chunk_size" by simp
    with acc bad show ?thesis by blast
  qed
  with fr have "m = num_chunks S chunk_size" by blast
  with up ok c' show ?thesis by simp
qed

lemma session_strategy_unfold_named:
  assumes "(file_path = None \<and> content = Some data \<and> file_name = Some name)
           \<or> (file_path = Some p \<and> p \<noteq> [] \<and> content = None \<and> file_name = None
               \<and> fs p = Some data \<and> name = basename p)"
      and "threshold < length data" "length data \<le> cap"
  shows "add_attachment srv fs guess_type message_id file_path content file_name user_id
           is_inline content_type c
         = bind_io (create_upload_session srv message_id name (length data) user_id is_inline)
             (\<lambda>session. bind_io (upload_chunks srv session data (length data) 0)
                (\<lambda>_. ret session)) c"
  using assms
  by (auto simp: add_attachment_def threshold_def cap_def bind_io_ret)

text \<open>
  Claim C1.  A payload of size \<open>S\<close> with \<open>threshold < S \<le> cap\<close> is given to
  \<^verbatim>\<open>add_attachment\<close> as \<^verbatim>\<open>content\<close> with \<^verbatim>\<open>file_name\<close> or as the path of a
  file.  Chunk \<open>i\<close> of the spec is the request \<open>range_request\<close> for the byte range
  \<open>[i*C, min((i+1)*C, S) - 1]\<close>, \<open>C = 4194304\<close>: it carries the bytes of the payload at
  these positions, their number as \<^verbatim>\<open>Content-Length\<close> and the range as
  \<^verbatim>\<open>Content-Range\<close>.

  \<^item> When a token is cached or the token exchange succeeds, the negotiation is answered
    with a 2xx status and a JSON object whose \<^verbatim>\<open>uploadUrl\<close> is a string, and the remote
    side accepts each of the \<open>ceil(S / C)\<close> chunks, the call returns the session and has
    sent the negotiation followed by exactly these chunks, in order.
  \<^item> Whenever the call returns a session, whatever the remote side did, the requests it
    sent are some POST requests followed by exactly these chunks, in order.
  \<^item> The bytes of the chunks put end to end are the payload; the first range starts at 0,
    each next one starts right after the one before, the last one ends at \<open>S - 1\<close>, and
    none is empty.
  \<^item> For \<open>S = 10485760\<close> the ranges are \<open>[0, 4194303]\<close>, \<open>[4194304, 8388607]\<close>,
    \<open>[8388608, 10485759]\<close>.
\<close>

theorem add_attachment_chunk_ranges:
  assumes "(file_path = None \<and> content = Some data \<and> file_name = Some name)
           \<or> (file_path = Some p \<and> p \<noteq> [] \<and> content = None \<and> file_name = None
               \<and> fs p = Some data \<and> name = basename p)"
      and "threshold < length data" "length data \<le> cap"
  shows "(((truthy (token c) \<and> c1 = c)
           \<or> (\<not> truthy (token c)
               \<and> srv (length (calls c)) (token_request c) = Reply r0 \<and> is_success r0
               \<and> json_body r0 = Some d0 \<and> map_of d0 ''access_token'' = Some tok
               \<and> c1 = c\<lparr>calls := calls c @ [token_request c], token := tok\<rparr>))
          \<and> srv (length (calls c1))
               (upload_session_request c1 message_id name (length data) user_id is_inline)
             = Reply r
          \<and> is_success r \<and> json_body r = Some session
          \<and> map_of session ''uploadUrl'' = Some (PStr u)
          \<and> (\<forall>i<num_chunks (length data) chunk_size.
                accepted (srv (length (calls c1) + 1 + i)
                            (range_request u data (chunk_range (length data) chunk_size i))))
          \<longrightarrow> add_attachment srv fs guess_type message_id file_path content file_name user_id
                is_inline content_type c
              = (Inr session,
                 c1\<lparr>calls := calls c1
                    @ upload_session_request c1 message_id name (length data) user_id is_inline
                    # map (\<lambda>i. range_request u data (chunk_range (length data) chunk_size i))
                        [0..<num_chunks (length data) chunk_size]\<rparr>))
       \<and> (\<forall>session' c'.
            add_attachment srv fs guess_type message_id file_path content file_name user_id
              is_inline content_type c = (Inr session', c')
            \<longrightarrow> (\<exists>pre u'. map_of session' ''uploadUrl'' = Some (PStr u')
                  \<and> list_all (\<lambda>rq. meth rq = POST) pre
                  \<and> calls c' = calls c @ pre
                       @ map (\<lambda>i. range_request u' data
                                    (chunk_range (length data) chunk_size i))
                           [0..<num_chunks (length data) chunk_size]))
       \<and> concat (map (\<lambda>i. take (nat (snd (chunk_range (length data) chunk_size i)
                                      - fst (chunk_range (length data) chunk_size i) + 1))
                             (drop (nat (fst (chunk_range (length data) chunk_size i))) data))
                   [0..<num_chunks (length data) chunk_size]) = data
       \<and> fst (chunk_range (length data) chunk_size 0) = 0
       \<and> snd (chunk_range (length data) chunk_size
                (num_chunks (length data) chunk_size - 1)) = int (length data) - 1
       \<and> (\<forall>i. Suc i < num_chunks (length data) chunk_size \<longrightarrow>
             fst (chunk_range (length data) chunk_size (Suc i))
             = snd (chunk_range (length data) chunk_size i) + 1)
       \<and> (\<forall>i<num_chunks (length data) chunk_size.
             fst (chunk_range (length data) chunk_size i)
             \<le> snd (chunk_range (length data) chunk_size i))
       \<and> (length data = 10485760 \<longrightarrow>
             map (chunk_range (length data) chunk_size)
                 [0..<num_chunks (length data) chunk_size]
             = [(0, 4194303), (4194304, 8388607), (8388608, 10485759)])"
proof -
  let ?S = "length data"
  let ?n = "num_chunks ?S chunk_size"
  let ?spec = "\<lambda>u i. range_request u data (chunk_range ?S chunk_size i)"
  let ?step = "\<lambda>u j. step_request u data ?S (j * chunk_size)"
  have C: "0 < chunk_size" by (simp add: chunk_size_def)
  have pos: "0 < ?S" using assms(2) by linarith
  have unf: "add_attachment srv fs guess_type message_id file_path content file_name user_id
           is_inline content_type c
         = bind_io (create_upload_session srv message_id name ?S user_id is_inline)
             (\<lambda>session. bind_io (upload_chunks srv session data ?S 0)
                (\<lambda>_. ret session)) c"
    by (rule session_strategy_unfold_named[where fs = fs and p = p, OF assms(1-3)])
  have same: "map (?step v) [0..<?n] = map (?spec v) [0..<?n]" for v
    by (rule chunk_requests_range_requests)
  have run: "add_attachment srv fs guess_type message_id file_path content file_name user_id
                is_inline content_type c
              = (Inr session,
                 c1\<lparr>calls := calls c1
                    @ upload_session_request c1 message_id name ?S user_id is_inline
                    # map (?spec u) [0..<?n]\<rparr>)"
    if tokh: "(truthy (token c) \<and> c1 = c)
           \<or> (\<not> truthy (token c)
               \<and> srv (length (calls c)) (token_request c) = Reply r0 \<and> is_success r0
               \<and> json_body r0 = Some d0 \<and> map_of d0 ''access_token'' = Some tok
               \<and> c1 = c\<lparr>calls := calls c @ [token_request c], token := tok\<rparr>)"
      and ans: "srv (length (calls c1))
               (upload_session_request c1 message_id name ?S user_id is_inline) = Reply r"
      and ok: "is_success r" "json_body r = Some session"
      and url: "map_of session ''uploadUrl'' = Some (PStr u)"
      and acc: "\<forall>i<?n. accepted (srv (length (calls c1) + 1 + i) (?spec u i))"
  proof -
    let ?q = "upload_session_request c1 message_id name ?S user_id is_inline"
    let ?c2 = "c1\<lparr>calls := calls c1 @ [?q]\<rparr>"
    have et: "ensure_token srv c = (Inr (), c1)"
      by (rule ensure_token_available[where srv = srv and c = c and ?c1.0 = c1
            and ?r0.0 = r0 and ?d0.0 = d0 and tok = tok, OF tokh])
    have neg: "create_upload_session srv message_id name ?S user_id is_inline c
               = (Inr session, ?c2)"
      by (rule create_upload_session_run[OF et ans ok])
    have acc': "\<forall>j<?n. accepted (srv (length (calls ?c2) + j) (?step u j))"
    proof (intro allI impI)
      fix j assume j: "j < ?n"
      from chunk_index_in_range[OF j C] have "?step u j = ?spec u j"
        by (rule step_request_range_request)
      moreover have "length (calls ?c2) + j = length (calls c1) + 1 + j" by simp
      ultimately show "accepted (srv (length (calls ?c2) + j) (?step u j))"
        using acc j by simp
    qed
    have up: "upload_chunks srv session data ?S 0 ?c2
              = (Inr (), ?c2\<lparr>calls := calls ?c2 @ map (?step u) [0..<?n]\<rparr>)"
      by (rule upload_chunks_accepted[OF url acc'])
    show ?thesis
      unfolding unf by (simp add: bind_io_def neg up ret_def same)
  qed
  have shape: "\<exists>pre u'. map_of session' ''uploadUrl'' = Some (PStr u')
                  \<and> list_all (\<lambda>rq. meth rq = POST) pre
                  \<and> calls c' = calls c @ pre @ map (?spec u') [0..<?n]"
    if res: "add_attachment srv fs guess_type message_id file_path content file_name user_id
              is_inline content_type c = (Inr session', c')"
    for session' c'
  proof -
    obtain r1 c2 where neg: "create_upload_session srv message_id name ?S user_id is_inline c
                             = (r1, c2)"
      by (cases "create_upload_session srv message_id name ?S user_id is_inline c") auto
    from create_upload_session_calls[OF neg] obtain pre where
      pre: "calls c2 = calls c @ pre" "list_all (\<lambda>rq. meth rq = POST) pre" by blast
    obtain r2 c3 where up: "upload_chunks srv session' data ?S 0 c2 = (r2, c3)"
      by (cases "upload_chunks srv session' data ?S 0 c2") auto
    have r1: "r1 = Inr session'"
      using res unf neg
      by (cases r1) (auto simp: bind_io_def ret_def split: prod.splits sum.splits)
    have r2: "\<exists>x. r2 = Inr x" and c': "c' = c3"
      using res unf neg r1 up by (cases r2; simp add: bind_io_def ret_def)+
    have "\<exists>u'. map_of session' ''uploadUrl'' = Some (PStr u')"
    proof (rule ccontr)
      assume "\<not> (\<exists>u'. map_of session' ''uploadUrl'' = Some (PStr u'))"
      then have "\<forall>u'. map_of session' ''uploadUrl'' \<noteq> Some (PStr u')" by blast
      from upload_chunks_no_url[OF this pos, of srv data c2] up r2 show False by auto
    qed
    then obtain u' where u': "map_of session' ''uploadUrl'' = Some (PStr u')" by blast
    from upload_chunks_trace0[OF u' up] r2 obtain m where
      m: "m = ?n"
      and c3: "c3 = c2\<lparr>calls := calls c2 @ map (?step u') [0..<m]\<rparr>"
      by blast
    have "calls c' = calls c @ pre @ map (?spec u') [0..<?n]"
      using c' c3 m pre(1) same by simp
    with u' pre(2) show ?thesis by blast
  qed
  note facts = chunk_range_facts[OF pos C]
  have p1: "((truthy (token c) \<and> c1 = c)
           \<or> (\<not> truthy (token c)
               \<and> srv (length (calls c)) (token_request c) = Reply r0 \<and> is_success r0
               \<and> json_body r0 = Some d0 \<and> map_of d0 ''access_token'' = Some tok
               \<and> c1 = c\<lparr>calls := calls c @ [token_request c], token := tok\<rparr>))
          \<and> srv (length (calls c1))
               (upload_session_request c1 message_id name ?S user_id is_inline)
             = Reply r
          \<and> is_success r \<and> json_body r = Some session
          \<and> map_of session ''uploadUrl'' = Some (PStr u)
          \<and> (\<forall>i<?n. accepted (srv (length (calls c1) + 1 + i) (?spec u i)))
          \<longrightarrow> add_attachment srv fs guess_type message_id file_path content file_name user_id
                is_inline content_type c
              = (Inr session,
                 c1\<lparr>calls := calls c1
                    @ upload_session_request c1 message_id name ?S user_id is_inline
                    # map (?spec u) [0..<?n]\<rparr>)"
  proof (rule impI)
    assume h: "((truthy (token c) \<and> c1 = c)
           \<or> (\<not> truthy (token c)
               \<and> srv (length (calls c)) (token_request c) = Reply r0 \<and> is_success r0
               \<and> json_body r0 = Some d0 \<and> map_of d0 ''access_token'' = Some tok
               \<and> c1 = c\<lparr>calls := calls c @ [token_request c], token := tok\<rparr>))
          \<and> srv (length (calls c1))
               (upload_session_request c1 message_id name ?S user_id is_inline)
             = Reply r
          \<and> is_success r \<and> json_body r = Some session
          \<and> map_of session ''uploadUrl'' = Some (PStr u)
          \<and> (\<forall>i<?n. accepted (srv (length (calls c1) + 1 + i) (?spec u i)))"
    show "add_attachment srv fs guess_type message_id file_path content file_name user_id
                is_inline content_type c
              = (Inr session,
                 c1\<lparr>calls := calls c1
                    @ upload_session_request c1 message_id name ?S user_id is_inline
                    # map (?spec u) [0..<?n]\<rparr>)"
      by (rule run[OF h[THEN conjunct1] h[THEN conjunct2, THEN conjunct1]
            h[THEN conjunct2, THEN conjunct2, THEN conjunct1]
            h[THEN conjunct2, THEN conjunct2, THEN conjunct2, THEN conjunct1]
            h[THEN conjunct2, THEN conjunct2, THEN conjunct2, THEN conjunct2, THEN conjunct1]
            h[THEN conjunct2, THEN conjunct2, THEN conjunct2, THEN conjunct2, THEN conjunct2]])
  qed
  have p2: "\<forall>session' c'.
            add_attachment srv fs guess_type message_id file_path content file_name user_id
              is_inline content_type c = (Inr session', c')
            \<longrightarrow> (\<exists>pre u'. map_of session' ''uploadUrl'' = Some (PStr u')
                  \<and> list_all (\<lambda>rq. meth rq = POST) pre
                  \<and> calls c' = calls c @ pre @ map (?spec u') [0..<?n])"
    using shape by (intro allI impI)
  have p8: "?S = 10485760 \<longrightarrow>
             map (chunk_range ?S chunk_size) [0..<?n]
             = [(0, 4194303), (4194304, 8388607), (8388608, 10485759)]"
    using ten_mib_ranges by simp
  show ?thesis
    by (intro conjI)
       (rule p1, rule p2, rule concat_range_bytes, rule facts(1), rule facts(2),
        rule facts(3), rule facts(4), rule p8)
qed

theorem add_attachment_chunk_ranges_witness:
  "add_attachment friendly_server no_files no_guess ''msg'' None (Some striped_payload)
     (Some ''a.bin'') (Some ''user'') False None client0
   = (Inr sample_session,
      client0\<lparr>calls :=
        [\<lparr>meth = POST,
          rq_url = ''https://graph.microsoft.com/v1.0/users/user/messages/msg''
                   @ ''/attachments/createUploadSession'',
          params = [],
          headers = [(''Authorization'', HBearer (PStr ''tok''))],
          payload = Json (PDict [(''AttachmentItem'',
                      PDict [(''attachmentType'', PStr ''file''),
                             (''name'', PStr ''a.bin''),
                             (''size'', PInt 10485760),
                             (''isInline'', PBool False)])]),
          follow_redirects = False\<rparr>,
         \<lparr>meth = PUT, rq_url = ''https://upload.example/session'', params = [],
          headers = [(''Content-Length'', HLen 4194304),
                     (''Content-Range'', HContentRange 0 4194303 10485760)],
          payload = Raw (replicate 4194304 1), follow_redirects = False\<rparr>,
         \<lparr>meth = PUT, rq_url = ''https://upload.example/session'', params = [],
          headers = [(''Content-Length'', HLen 4194304),
                     (''Content-Range'', HContentRange 4194304 8388607 10485760)],
          payload = Raw (replicate 4194304 2), follow_redirects = False\<rparr>,
         \<lparr>meth = PUT, rq_url = ''https://upload.example/session'', params = [],
          headers = [(''Content-Length'', HLen 2097152),
                     (''Content-Range'', HContentRange 8388608 10485759 10485760)],
          payload = Raw (replicate 2097152 3), follow_redirects = False\<rparr>]\<rparr>)
   \<and> length striped_payload = 10485760
   \<and> map (chunk_range (length striped_payload) chunk_size)
         [0..<num_chunks (length striped_payload) chunk_size]
     = [(0, 4194303), (4194304, 8388607), (8388608, 10485759)]"
proof -
  have pay: "((None :: string option) = None \<and> Some striped_payload = Some striped_payload
               \<and> Some ''a.bin'' = Some ''a.bin'')
           \<or> ((None :: string option) = Some [] \<and> [] \<noteq> ([] :: string)
               \<and> Some striped_payload = None \<and> Some ''a.bin'' = None
               \<and> no_files [] = Some striped_payload \<and> ''a.bin'' = basename [])"
    by simp
  have len: "length striped_payload = 10485760" by (simp add: striped_payload_def)
  have lo: "threshold < length striped_payload" by (simp add: threshold_def len)
  have hi: "length striped_payload \<le> cap" by (simp add: cap_def len)
  have n: "num_chunks 10485760 chunk_size = 3" by (simp add: num_chunks_def chunk_size_def)
  have upt3: "[0..<3] = [0, 1, 2]" by (simp add: upt_rec)
  have acc: "accepted (friendly_server k rq)" for k rq
    by (simp add: friendly_server_def ok_response_def is_success_def)
  note inst = add_attachment_chunk_ranges[where srv = friendly_server and c = client0
      and guess_type = no_guess and message_id = "''msg''" and user_id = "Some ''user''"
      and is_inline = False and content_type = None and fs = no_files
      and file_path = None and content = "Some striped_payload" and data = striped_payload
      and file_name = "Some ''a.bin''" and name = "''a.bin''" and p = "[]"
      and ?c1.0 = client0 and ?r0.0 = "ok_response sample_session"
      and ?d0.0 = sample_session and tok = "PStr ''tok''"
      and r = "ok_response sample_session" and session = sample_session
      and u = "''https://upload.example/session''", OF pay lo hi]
  have hyp: "((truthy (token client0) \<and> client0 = client0)
           \<or> (\<not> truthy (token client0)
               \<and> friendly_server (length (calls client0)) (token_request client0)
                  = Reply (ok_response sample_session)
               \<and> is_success (ok_response sample_session)
               \<and> json_body (ok_response sample_session) = Some sample_session
               \<and> map_of sample_session ''access_token'' = Some (PStr ''tok'')
               \<and> client0 = client0\<lparr>calls := calls client0 @ [token_request client0],
                                      token := PStr ''tok''\<rparr>))
          \<and> friendly_server (length (calls client0))
               (upload_session_request client0 ''msg'' ''a.bin'' (length striped_payload)
                  (Some ''user'') False)
             = Reply (ok_response sample_session)
          \<and> is_success (ok_response sample_session)
          \<and> json_body (ok_response sample_session) = Some sample_session
          \<and> map_of sample_session ''uploadUrl'' = Some (PStr ''https://upload.example/session'')
          \<and> (\<forall>i<num_chunks (length striped_payload) chunk_size.
                accepted (friendly_server (length (calls client0) + 1 + i)
                            (range_request ''https://upload.example/session'' striped_payload
                               (chunk_range (length striped_payload) chunk_size i))))"
    by (simp add: acc client0_def friendly_server_def sample_session_def ok_response_def
        is_success_def)
  have run: "add_attachment friendly_server no_files no_guess ''msg'' None
       (Some striped_payload) (Some ''a.bin'') (Some ''user'') False None client0
     = (Inr sample_session,
        client0\<lparr>calls := calls client0
           @ upload_session_request client0 ''msg'' ''a.bin'' (length striped_payload)
               (Some ''user'') False
           # map (\<lambda>i. range_request ''https://upload.example/session'' striped_payload
                        (chunk_range (length striped_payload) chunk_size i))
               [0..<num_chunks (length striped_payload) chunk_size]\<rparr>)"
    by (rule inst[THEN conjunct1, THEN mp, OF hyp])
  have q0: "upload_session_request client0 ''msg'' ''a.bin'' 10485760 (Some ''user'') False
     = \<lparr>meth = POST,
          rq_url = ''https://graph.microsoft.com/v1.0/users/user/messages/msg''
                   @ ''/attachments/createUploadSession'',
          params = [],
          headers = [(''Authorization'', HBearer (PStr ''tok''))],
          payload = Json (PDict [(''AttachmentItem'',
                      PDict [(''attachmentType'', PStr ''file''),
                             (''name'', PStr ''a.bin''),
                             (''size'', PInt 10485760),
                             (''isInline'', PBool False)])]),
          follow_redirects = False\<rparr>"
    by (simp add: upload_session_request_def user_base_url_def client0_def)
  have r0: "range_request ''https://upload.example/session'' striped_payload
              (chunk_range 10485760 chunk_size 0)
     = \<lparr>meth = PUT, rq_url = ''https://upload.example/session'', params = [],
          headers = [(''Content-Length'', HLen 4194304),
                     (''Content-Range'', HContentRange 0 4194303 10485760)],
          payload = Raw (replicate 4194304 1), follow_redirects = False\<rparr>"
    by (simp add: range_request_def chunk_range_def chunk_size_def len)
       (simp add: striped_payload_def)
  have r1: "range_request ''https://upload.example/session'' striped_payload
              (chunk_range 10485760 chunk_size 1)
     = \<lparr>meth = PUT, rq_url = ''https://upload.example/session'', params = [],
          headers = [(''Content-Length'', HLen 4194304),
                     (''Content-Range'', HContentRange 4194304 8388607 10485760)],
          payload = Raw (replicate 4194304 2), follow_redirects = False\<rparr>"
    by (simp add: range_request_def chunk_range_def chunk_size_def len)
       (simp add: striped_payload_def)
  have r2: "range_request ''https://upload.example/session'' striped_payload
              (chunk_range 10485760 chunk_size 2)
     = \<lparr>meth = PUT, rq_url = ''https://upload.example/session'', params = [],
          headers = [(''Content-Length'', HLen 2097152),
                     (''Content-Range'', HContentRange 8388608 10485759 10485760)],
          payload = Raw (replicate 2097152 3), follow_redirects = False\<rparr>"
    by (simp add: range_request_def chunk_range_def chunk_size_def len)
       (simp add: striped_payload_def)
  have c0: "calls client0 = []" by (simp add: client0_def)
  have first: "add_attachment friendly_server no_files no_guess ''msg'' None
       (Some striped_payload) (Some ''a.bin'') (Some ''user'') False None client0
     = (Inr sample_session,
        client0\<lparr>calls :=
          [upload_session_request client0 ''msg'' ''a.bin'' 10485760 (Some ''user'') False,
           range_request ''https://upload.example/session'' striped_payload
              (chunk_range 10485760 chunk_size 0),
           range_request ''https://upload.example/session'' striped_payload
              (chunk_range 10485760 chunk_size 1),
           range_request ''https://upload.example/session'' striped_payload
              (chunk_range 10485760 chunk_size 2)]\<rparr>)"
    using run unfolding len n upt3 c0 by simp
  have ranges: "map (chunk_range (length striped_payload) chunk_size)
         [0..<num_chunks (length striped_payload) chunk_size]
     = [(0, 4194303), (4194304, 8388607), (8388608, 10485759)]"
    by (rule inst[THEN conjunct2, THEN conjunct2, THEN conjunct2, THEN conjunct2,
          THEN conjunct2, THEN conjunct2, THEN conjunct2, THEN mp, OF len])
  show ?thesis
    by (intro conjI) (rule first[unfolded q0 r0 r1 r2], rule len, rule ranges)
qed

end
